theory Spec2Isabelle
  imports Complex_Main "HOL-Library.AList"
begin

section \<open>CRClicker annotation session engine: data model\<close>

text \<open>
  The renderer process keeps one mutable \<open>state\<close> object. Its fields are modelled by a
  record that every operation takes and returns. Playback positions and click
  coordinates are JavaScript numbers; they are modelled as reals (no rounding, no NaN:
  a property that is \<open>undefined\<close> or not a number is \<open>None\<close>). \<open>Date.now()\<close> is an
  explicit integer argument \<open>now\<close> (milliseconds). JavaScript \<open>Map\<close>s and plain
  objects keep insertion order and hold one value per key; they are association lists
  that are only ever changed with \<open>AList.update\<close> (\<open>set\<close>, property assignment) and
  \<open>AList.delete\<close> (\<open>delete\<close>).

  An entry object holds the five fixed properties and one property per answered step.
  The answers are kept apart in \<open>stepValues\<close> (step ids are taken not to clash with the
  names of the fixed properties); recorded answers and the values of a config are
  strings, on which \<open>==\<close> and \<open>Array.includes\<close> agree with equality.
\<close>

record entry =
  entryId :: string
  playback_time_seconds :: "real option"
  ocr_timestamp :: string
  click_x :: real
  click_y :: real
  stepValues :: "(string \<times> string) list"

record condition =
  cond_step_id :: "string option"
  cond_operator :: "string option"
  cond_value :: "string option"
  cond_values :: "string list option"

record step =
  step_id :: string
  step_condition :: "condition option"

datatype dot_color = Green | Orange | Red

datatype dot_phase = Waiting | Finalized | Rewind | Undo

record dot =
  color :: dot_color
  startTime :: int
  phase :: dot_phase
  entryTime :: "real option"

datatype session_mode = EntryMode | AuditMode

record snapshot =
  snap_masterLog :: "entry list"
  snap_newEntries :: "entry list"
  snap_deletedEntryIds :: "string set"
  snap_timestamp :: int

text \<open>
  The \<open>video\<close> element: playback position, paused flag, rate, the native size of the
  footage and its bounding rectangle on screen.
\<close>

record videoElement =
  currentTime :: real
  paused :: bool
  playbackRate :: real
  videoWidth :: real
  videoHeight :: real
  rectLeft :: real
  rectTop :: real
  rectWidth :: real
  rectHeight :: real

datatype toast_type = Info | Success | Warning | Error

text \<open>
  A \<open>seeked\<close> listener registered with \<open>once: true\<close> by \<open>startRecap\<close>: the one of
  the empty log only pauses, the other one pauses, enters rewind mode and pre-adds dots.
\<close>

datatype seeked_listener = PauseOnly | EnterRewind

datatype js_error = TypeError

record state =
  config :: "step list option"
  videoStartTime :: "real option"
  masterLog :: "entry list"
  currentEntry :: "entry option"
  currentStepIndex :: nat
  spacePressed :: bool
  playbackSpeed :: real
  entryCounter :: nat
  activeDots :: "(string \<times> dot) list"
  isRewinding :: bool
  rewindStartTime :: "real option"
  recapEndTime :: "real option"
  recapCompleted :: bool
  mode :: session_mode
  originalEntries :: "entry list"
  deletedEntryIds :: "string set"
  newEntries :: "entry list"
  undoStack :: "snapshot list"
  redoStack :: "snapshot list"
  video :: videoElement
  containerLeft :: real
  containerTop :: real
  canvasReady :: bool
  modalActive :: bool
  lastClickPosition :: "(real \<times> real) option"
  toasts :: "(string \<times> toast_type) list"
  seekedListeners :: "seeked_listener list"
  recapManagerLoaded :: bool

text \<open>\<open>maxUndoHistory\<close> is set to 50 when the state is created and never assigned again.\<close>

definition maxUndoHistory :: nat where
  "maxUndoHistory = 50"

definition showToast :: "string \<Rightarrow> toast_type \<Rightarrow> state \<Rightarrow> state" where
  "showToast message ty s = s\<lparr>toasts := toasts s @ [(message, ty)]\<rparr>"

section \<open>Timestamps\<close>

text \<open>\<open>String(n)\<close> for a natural number and \<open>padStart(2, '0')\<close>.\<close>

definition digit_char :: "nat \<Rightarrow> char" where
  "digit_char d = ''0123456789'' ! d"

fun string_of_nat :: "nat \<Rightarrow> string" where
  "string_of_nat n =
     (if n < 10 then [digit_char n] else string_of_nat (n div 10) @ [digit_char (n mod 10)])"

declare string_of_nat.simps [simp del]

definition padStart2 :: "string \<Rightarrow> string" where
  "padStart2 str = (if length str < 2 then replicate (2 - length str) CHR ''0'' @ str else str)"

text \<open>The remainder operator \<open>%\<close> on numbers: the quotient is truncated towards zero.\<close>

definition js_rem :: "real \<Rightarrow> real \<Rightarrow> real" where
  "js_rem x y = x - y * of_int (if 0 \<le> x / y then \<lfloor>x / y\<rfloor> else \<lceil>x / y\<rceil>)"

text \<open>
  \<open>formatSecondsToTimestamp\<close> of the renderer. The \<open>Date\<close> it builds is the start of
  the day plus \<open>Math.floor(seconds)\<close> seconds; its hours, minutes and seconds are those of
  a wall clock without daylight-saving jumps, carried over day boundaries.
\<close>

definition formatSecondsToTimestamp :: "real option \<Rightarrow> string" where
  "formatSecondsToTimestamp secondsOpt =
     (case secondsOpt of
        None \<Rightarrow> ''N/A''
      | Some seconds0 \<Rightarrow>
          (let seconds1 = (if seconds0 < 0 then seconds0 + 24 * 60 * 60 else seconds0);
               seconds2 = (if seconds1 \<ge> 24 * 60 * 60 then js_rem seconds1 (24 * 60 * 60)
                           else seconds1);
               k = \<lfloor>seconds2\<rfloor>;
               hours = nat ((k div 3600) mod 24);
               minutes = nat ((k div 60) mod 60);
               secs = nat (k mod 60)
           in padStart2 (string_of_nat hours) @ '':'' @ padStart2 (string_of_nat minutes)
              @ '':'' @ padStart2 (string_of_nat secs)))"

definition videoStartSeconds :: "state \<Rightarrow> real" where
  "videoStartSeconds s = (case videoStartTime s of None \<Rightarrow> 0 | Some v \<Rightarrow> v)"

definition calculateTimestamp :: "state \<Rightarrow> entry \<Rightarrow> string" where
  "calculateTimestamp s e =
     (case playback_time_seconds e of
        None \<Rightarrow> ''N/A''
      | Some p \<Rightarrow>
          (let actualFootageTime = videoStartSeconds s + (p - 1)
           in formatSecondsToTimestamp (Some actualFootageTime)))"

definition getCorrectedPlaybackTime :: "state \<Rightarrow> entry \<Rightarrow> real" where
  "getCorrectedPlaybackTime s e =
     (case playback_time_seconds e of
        None \<Rightarrow> 0
      | Some p \<Rightarrow> if p = 0 then 0 else videoStartSeconds s + p)"

definition getEntryCorrectedTime :: "state \<Rightarrow> entry \<Rightarrow> real" where
  "getEntryCorrectedTime s e = getCorrectedPlaybackTime s e"



section \<open>Conditional step workflow\<close>

definition evaluateStepCondition :: "step \<Rightarrow> nat \<Rightarrow> entry option \<Rightarrow> bool" where
  "evaluateStepCondition st stepIndex ce =
     (case step_condition st of
        None \<Rightarrow> True
      | Some c \<Rightarrow>
          (case ce of
             None \<Rightarrow> stepIndex = 0
           | Some e \<Rightarrow>
               (case cond_step_id c of
                  None \<Rightarrow> False
                | Some k \<Rightarrow>
                    if k = [] then False
                    else
                      (case map_of (stepValues e) k of
                         None \<Rightarrow> False
                       | Some previousValue \<Rightarrow>
                           (let operator =
                                  (case cond_operator c of
                                     None \<Rightarrow> ''==''
                                   | Some opr \<Rightarrow> if opr = [] then ''=='' else opr)
                            in if operator = ''=='' \<or> operator = ''=''
                               then cond_value c = Some previousValue
                               else if operator = ''!=''
                               then cond_value c \<noteq> Some previousValue
                               else if operator = ''in''
                               then (case cond_values c of
                                       Some vs \<Rightarrow> previousValue \<in> set vs
                                     | None \<Rightarrow> False)
                               else if operator = ''not in''
                               then (case cond_values c of
                                       Some vs \<Rightarrow> previousValue \<notin> set vs
                                     | None \<Rightarrow> True)
                               else cond_value c = Some previousValue)))))"

text \<open>The \<open>for\<close> loop of \<open>findNextValidStepIndex\<close>; \<open>None\<close> is the result \<open>-1\<close>.\<close>

function findNextFrom :: "step list \<Rightarrow> entry option \<Rightarrow> nat \<Rightarrow> nat option" where
  "findNextFrom steps ce i =
     (if i < length steps
      then (if evaluateStepCondition (steps ! i) i ce then Some i
            else findNextFrom steps ce (Suc i))
      else None)"
  by pat_completeness auto
termination
  by (relation "measure (\<lambda>(steps, ce, i). length steps - i)") auto

declare findNextFrom.simps [simp del]

definition findNextValidStepIndex :: "state \<Rightarrow> nat \<Rightarrow> nat option" where
  "findNextValidStepIndex s startIndex =
     (case config s of
        None \<Rightarrow> None
      | Some steps \<Rightarrow> findNextFrom steps (currentEntry s) startIndex)"

text \<open>
  The downward loop of \<open>findPreviousValidStepIndex\<close>, from \<open>i - 1\<close> to \<open>0\<close>. It reads
  \<open>steps[i]\<close> without a bounds check: beyond the end it passes \<open>undefined\<close> to
  \<open>evaluateStepCondition\<close>, which throws a \<open>TypeError\<close> at \<open>step.condition\<close>.
\<close>

fun findPrevFrom :: "step list \<Rightarrow> entry option \<Rightarrow> nat \<Rightarrow> nat option" where
  "findPrevFrom steps ce 0 = None"
| "findPrevFrom steps ce (Suc i) =
     (if evaluateStepCondition (steps ! i) i ce then Some i else findPrevFrom steps ce i)"

definition findPreviousValidStepIndex :: "state \<Rightarrow> nat \<Rightarrow> js_error + nat option" where
  "findPreviousValidStepIndex s currentIndex =
     (case config s of
        None \<Rightarrow> Inr None
      | Some steps \<Rightarrow>
          if currentIndex = 0 then Inr None
          else if length steps < currentIndex then Inl TypeError
          else Inr (findPrevFrom steps (currentEntry s) currentIndex))"



text \<open>
  The checks of \<open>validateConfig\<close> on the conditions: a condition names a step
  (\<open>condition.field || condition.step_id\<close> is not empty), and the first step with that
  id comes before the step that carries the condition.
\<close>

definition conditionsReferBack :: "step list \<Rightarrow> bool" where
  "conditionsReferBack steps =
     list_all
       (\<lambda>i. case step_condition (steps ! i) of
               None \<Rightarrow> True
             | Some c \<Rightarrow>
                 (case cond_step_id c of
                    None \<Rightarrow> False
                  | Some k \<Rightarrow> k \<noteq> [] \<and> k \<in> step_id ` set (take i steps)))
       [0 ..< length steps]"

section \<open>Indicator dots\<close>

definition play_video :: "state \<Rightarrow> state" where
  "play_video s = s\<lparr>video := (video s)\<lparr>paused := False, playbackRate := playbackSpeed s\<rparr>\<rparr>"

definition pause_video :: "state \<Rightarrow> state" where
  "pause_video s = s\<lparr>video := (video s)\<lparr>paused := True\<rparr>\<rparr>"

definition seek_video :: "real \<Rightarrow> state \<Rightarrow> state" where
  "seek_video t s = s\<lparr>video := (video s)\<lparr>currentTime := t\<rparr>\<rparr>"

text \<open>The entry a dot belongs to: the open draft, or else the first log entry with that id.\<close>

definition findEntry :: "state \<Rightarrow> string \<Rightarrow> entry option" where
  "findEntry s eid =
     (case currentEntry s of
        Some ce \<Rightarrow> if entryId ce = eid then Some ce
                   else find (\<lambda>e. entryId e = eid) (masterLog s)
      | None \<Rightarrow> find (\<lambda>e. entryId e = eid) (masterLog s))"

text \<open>
  \<open>drawRedDots\<close> paints the canvas and, while doing so, changes \<open>activeDots\<close>. Only the
  changes of the state are modelled. The early returns (no canvas, no video size, no
  layout, a bad scale or playback position) leave the state as it is.
\<close>

definition canDraw :: "state \<Rightarrow> bool" where
  "canDraw s =
     (let v = video s
      in canvasReady s \<and> videoWidth v \<noteq> 0 \<and> videoHeight v \<noteq> 0
         \<and> rectWidth v \<noteq> 0 \<and> rectHeight v \<noteq> 0
         \<and> 0 < rectWidth v / videoWidth v \<and> 0 < rectHeight v / videoHeight v
         \<and> 0 \<le> currentTime v)"

text \<open>
  The first loop visits every dot of the map; the only change it makes is to delete the
  dot it is visiting. \<open>dotRemovedByDraw\<close> is the condition under which it does.
\<close>

definition dotRemovedByDraw :: "state \<Rightarrow> int \<Rightarrow> string \<Rightarrow> dot \<Rightarrow> bool" where
  "dotRemovedByDraw s now eid dotInfo =
     (let elapsed = real_of_int (now - startTime dotInfo) / 1000
      in case findEntry s eid of
           None \<Rightarrow> True
         | Some e \<Rightarrow>
             (case (if phase dotInfo = Rewind then playback_time_seconds e else None) of
                Some entryT \<Rightarrow>
                  (let timeDiff = currentTime (video s) - entryT
                   in if - 0.75 \<le> timeDiff \<and> timeDiff < 0 then False
                      else if 0 \<le> timeDiff \<and> timeDiff < 0.1 then False
                      else if 0.1 \<le> timeDiff then 1.75 \<le> timeDiff - 0.1
                      else False)
              | None \<Rightarrow>
                  if phase dotInfo = Waiting then False
                  else if phase dotInfo = Finalized then 1.75 \<le> elapsed
                  else False))"

definition drawActiveDots :: "state \<Rightarrow> int \<Rightarrow> (string \<times> dot) list" where
  "drawActiveDots s now =
     fold (\<lambda>(eid, dotInfo) dots.
             if dotRemovedByDraw s now eid dotInfo then AList.delete eid dots else dots)
          (activeDots s) (activeDots s)"

text \<open>The body of the second loop, run for every log entry while \<open>isRewinding\<close>.\<close>

definition rewindDot :: "int \<Rightarrow> real \<Rightarrow> dot" where
  "rewindDot start entryT = \<lparr>color = Orange, startTime = start, phase = Rewind,
     entryTime = Some entryT\<rparr>"

definition rewindStep ::
  "real option \<Rightarrow> real \<Rightarrow> int \<Rightarrow> entry \<Rightarrow> (string \<times> dot) list \<Rightarrow> (string \<times> dot) list" where
  "rewindStep recapStartTime curTime now e dots =
     (case playback_time_seconds e of
        None \<Rightarrow> dots
      | Some entryT \<Rightarrow>
          if (case recapStartTime of None \<Rightarrow> False | Some r \<Rightarrow> r < entryT)
          then (case map_of dots (entryId e) of
                  Some existingDot \<Rightarrow>
                    if phase existingDot = Rewind then AList.delete (entryId e) dots else dots
                | None \<Rightarrow> dots)
          else
            (let timeDiff = curTime - entryT
             in if timeDiff < 0
                then (case map_of dots (entryId e) of
                        None \<Rightarrow> AList.update (entryId e) (rewindDot now entryT) dots
                      | Some existingDot \<Rightarrow>
                          if phase existingDot \<noteq> Waiting \<and> phase existingDot \<noteq> Finalized
                             \<and> phase existingDot \<noteq> Undo
                          then AList.update (entryId e)
                                 (rewindDot (if startTime existingDot = 0 then now
                                             else startTime existingDot) entryT) dots
                          else dots)
                else if 0 \<le> timeDiff \<and> timeDiff < 1.85
                then (case map_of dots (entryId e) of
                        None \<Rightarrow> AList.update (entryId e) (rewindDot now entryT) dots
                      | Some existingDot \<Rightarrow> dots)
                else if 1.85 \<le> timeDiff
                then (case map_of dots (entryId e) of
                        Some existingDot \<Rightarrow>
                          if phase existingDot = Rewind then AList.delete (entryId e) dots
                          else dots
                      | None \<Rightarrow> dots)
                else dots))"

definition drawRedDots :: "int \<Rightarrow> state \<Rightarrow> state" where
  "drawRedDots now s =
     (if \<not> canDraw s then s
      else
        (let s1 = s\<lparr>activeDots := drawActiveDots s now\<rparr>
         in if isRewinding s1
            then s1\<lparr>activeDots :=
                      fold (rewindStep (recapEndTime s1) (currentTime (video s1)) now)
                           (masterLog s1) (activeDots s1)\<rparr>
            else s1))"

section \<open>Entry session: draft, answers, commit\<close>

definition saveStateSnapshot :: "int \<Rightarrow> state \<Rightarrow> state" where
  "saveStateSnapshot now s =
     (let snap = \<lparr>snap_masterLog = masterLog s, snap_newEntries = newEntries s,
                   snap_deletedEntryIds = deletedEntryIds s, snap_timestamp = now\<rparr>;
          pushed = undoStack s @ [snap]
      in s\<lparr>undoStack := (if maxUndoHistory < length pushed then tl pushed else pushed)\<rparr>)"

definition shouldContinueRecap :: "state \<Rightarrow> real \<Rightarrow> bool" where
  "shouldContinueRecap s curTime =
     (case recapEndTime s of
        None \<Rightarrow> False
      | Some r \<Rightarrow> isRewinding s \<and> curTime < r - 0.5)"

text \<open>
  \<open>finalizeEntry\<close> commits the open draft. Its body is cut into the steps it
  performs in turn. The logs panel it refreshes is not part of the state, and the timer
  that removes the red dot 1.75 seconds later is not modelled.
\<close>

text \<open>Snapshot for undo, derived timestamp, push to the log, clear the redo stack.\<close>

definition recordEntry :: "int \<Rightarrow> entry \<Rightarrow> state \<Rightarrow> state" where
  "recordEntry now entryCopy s =
     (let s1 = saveStateSnapshot now s;
          s2 = s1\<lparr>masterLog := masterLog s1 @ [entryCopy], redoStack := []\<rparr>
      in if mode s2 = AuditMode then s2\<lparr>newEntries := newEntries s2 @ [entryCopy]\<rparr> else s2)"

text \<open>A new entry later than the end of an active recap extends the recap.\<close>

definition extendRecapForEntry :: "entry \<Rightarrow> state \<Rightarrow> state" where
  "extendRecapForEntry entryCopy s =
     (case (recapEndTime s, playback_time_seconds entryCopy) of
        (Some r, Some p) \<Rightarrow> if isRewinding s \<and> r < p then s\<lparr>recapEndTime := Some p\<rparr> else s
      | _ \<Rightarrow> s)"

definition resetDraft :: "state \<Rightarrow> state" where
  "resetDraft s = s\<lparr>currentEntry := None, currentStepIndex := 0, modalActive := False\<rparr>"

text \<open>The green dot of the draft, if there is one, becomes a red dot.\<close>

definition markDotFinalized :: "int \<Rightarrow> string \<Rightarrow> state \<Rightarrow> state" where
  "markDotFinalized now eid s =
     (if map_of (activeDots s) eid \<noteq> None
      then s\<lparr>activeDots :=
               AList.update eid
                 \<lparr>color = Red, startTime = now, phase = Finalized, entryTime = None\<rparr>
                 (activeDots s)\<rparr>
      else s)"

text \<open>Resume playback; inside a recap only while its end is more than half a second away.\<close>

definition resumeAfterCommit :: "state \<Rightarrow> state" where
  "resumeAfterCommit s =
     (case recapEndTime s of
        Some r \<Rightarrow>
          if isRewinding s
          then (let curTime = currentTime (video s)
                in if recapManagerLoaded s \<and> shouldContinueRecap s curTime then play_video s
                   else if curTime < r - 0.5 then play_video s
                   else (pause_video s)\<lparr>recapCompleted := True, isRewinding := False,
                          recapEndTime := None\<rparr>)
          else play_video s
      | None \<Rightarrow> play_video s)"

definition finalizeEntry :: "int \<Rightarrow> state \<Rightarrow> state" where
  "finalizeEntry now s =
     (case currentEntry s of
        None \<Rightarrow> s
      | Some ce \<Rightarrow>
          (let entryCopy = ce\<lparr>ocr_timestamp := calculateTimestamp s ce\<rparr>
           in drawRedDots now
                (resumeAfterCommit
                   (markDotFinalized now (entryId ce)
                      (resetDraft (extendRecapForEntry entryCopy (recordEntry now entryCopy s)))))))"

definition showChoiceModal :: "int \<Rightarrow> state \<Rightarrow> state" where
  "showChoiceModal now s =
     (case (findNextValidStepIndex s (currentStepIndex s), config s) of
        (Some nextStepIndex, Some steps) \<Rightarrow>
          if length steps \<le> nextStepIndex then finalizeEntry now s
          else s\<lparr>currentStepIndex := nextStepIndex, modalActive := True\<rparr>
      | _ \<Rightarrow> finalizeEntry now s)"

definition cancelCurrentEntry :: "int \<Rightarrow> state \<Rightarrow> state" where
  "cancelCurrentEntry now s =
     (case currentEntry s of
        None \<Rightarrow> s
      | Some ce \<Rightarrow>
          (let s1 = s\<lparr>activeDots := AList.delete (entryId ce) (activeDots s)\<rparr>;
               s2 = s1\<lparr>currentEntry := None, currentStepIndex := 0, modalActive := False\<rparr>;
               s3 = (if paused (video s2) then play_video s2 else s2)
           in drawRedDots now s3))"

definition handleChoiceSelection :: "int \<Rightarrow> string \<Rightarrow> string \<Rightarrow> state \<Rightarrow> state" where
  "handleChoiceSelection now val stepId s =
     (case currentEntry s of
        None \<Rightarrow> s
      | Some ce \<Rightarrow>
          (let s1 = s\<lparr>currentEntry :=
                        Some (ce\<lparr>stepValues := AList.update stepId val (stepValues ce)\<rparr>)\<rparr>
           in case (findNextValidStepIndex s1 (currentStepIndex s1 + 1), config s1) of
                (Some nextStepIndex, Some steps) \<Rightarrow>
                  if length steps \<le> nextStepIndex then finalizeEntry now s1
                  else showChoiceModal now (s1\<lparr>currentStepIndex := nextStepIndex\<rparr>)
              | _ \<Rightarrow> finalizeEntry now s1))"

text \<open>
  The buttons and the text field of the modal call \<open>handleChoiceSelection\<close> with the id
  of the step the modal shows, which is the step at \<open>currentStepIndex\<close>.
\<close>

definition answer :: "int \<Rightarrow> string \<Rightarrow> state \<Rightarrow> state" where
  "answer now val s =
     (case config s of
        None \<Rightarrow> s
      | Some steps \<Rightarrow>
          if modalActive s \<and> currentStepIndex s < length steps
          then handleChoiceSelection now val (step_id (steps ! currentStepIndex s)) s
          else s)"

text \<open>A property read as a condition: a recorded answer counts unless it is empty.\<close>

definition truthy :: "string option \<Rightarrow> bool" where
  "truthy v = (case v of None \<Rightarrow> False | Some str \<Rightarrow> str \<noteq> [])"

definition purgeLaterStep :: "step list \<Rightarrow> nat \<Rightarrow> entry \<Rightarrow> entry" where
  "purgeLaterStep steps i ce =
     (if truthy (map_of (stepValues ce) (step_id (steps ! i)))
         \<and> \<not> evaluateStepCondition (steps ! i) i (Some ce)
      then ce\<lparr>stepValues := AList.delete (step_id (steps ! i)) (stepValues ce)\<rparr>
      else ce)"

definition goBackToPreviousStep :: "int \<Rightarrow> state \<Rightarrow> js_error + state" where
  "goBackToPreviousStep now s =
     (case currentEntry s of
        None \<Rightarrow> Inr s
      | Some ce \<Rightarrow>
          if currentStepIndex s = 0 then Inr s
          else
            (case findPreviousValidStepIndex s (currentStepIndex s) of
               Inl err \<Rightarrow> Inl err
             | Inr None \<Rightarrow> Inr (cancelCurrentEntry now s)
             | Inr (Some previousValidIndex) \<Rightarrow>
                 (case config s of
                    None \<Rightarrow> Inl TypeError
                  | Some steps \<Rightarrow>
                      (let ce1 = (if currentStepIndex s < length steps
                                     \<and> truthy (map_of (stepValues ce)
                                                 (step_id (steps ! currentStepIndex s)))
                                  then ce\<lparr>stepValues :=
                                           AList.delete (step_id (steps ! currentStepIndex s))
                                             (stepValues ce)\<rparr>
                                  else ce);
                           ce2 = fold (purgeLaterStep steps)
                                   [currentStepIndex s + 1 ..< length steps] ce1
                       in Inr (showChoiceModal now
                                 (s\<lparr>currentEntry := Some ce2,
                                    currentStepIndex := previousValidIndex\<rparr>))))))"

record click_event =
  clientX :: real
  clientY :: real

definition string_of_int :: "int \<Rightarrow> string" where
  "string_of_int i = (if i < 0 then ''-'' @ string_of_nat (nat (- i)) else string_of_nat (nat i))"

text \<open>A click anywhere on the video first removes the orange dots left by undo.\<close>

definition clearUndoDots :: "int \<Rightarrow> state \<Rightarrow> state" where
  "clearUndoDots now s =
     (let undoDotsToRemove = map fst (filter (\<lambda>(eid, dotInfo). phase dotInfo = Undo)
                                        (activeDots s));
          s1 = s\<lparr>activeDots := fold AList.delete undoDotsToRemove (activeDots s)\<rparr>
      in if undoDotsToRemove \<noteq> [] then drawRedDots now s1 else s1)"

text \<open>
  The id and the shell of a new entry: \<open>entry_\<close>, the time of the click, and the
  entry counter; the playback position, the native coordinates, and no answers yet.
\<close>

definition newEntryId :: "int \<Rightarrow> state \<Rightarrow> string" where
  "newEntryId now s = ''entry_'' @ string_of_int now @ ''_'' @ string_of_nat (entryCounter s)"

definition entryShell :: "int \<Rightarrow> state \<Rightarrow> real \<Rightarrow> real \<Rightarrow> entry" where
  "entryShell now s nativeX nativeY =
     \<lparr>entryId = newEntryId now s, playback_time_seconds = Some (currentTime (video s)),
      ocr_timestamp = [], click_x = nativeX, click_y = nativeY, stepValues = []\<rparr>"

text \<open>The new draft and its green dot.\<close>

definition openDraft :: "int \<Rightarrow> click_event \<Rightarrow> real \<Rightarrow> real \<Rightarrow> state \<Rightarrow> state" where
  "openDraft now ev nativeX nativeY s =
     s\<lparr>entryCounter := entryCounter s + 1,
       currentEntry := Some (entryShell now s nativeX nativeY),
       lastClickPosition := Some (clientX ev, clientY ev),
       activeDots :=
         AList.update (newEntryId now s)
           \<lparr>color = Green, startTime = now, phase = Waiting, entryTime = None\<rparr>
           (activeDots s)\<rparr>"

text \<open>
  \<open>handleVideoClick\<close>. Clicks count once playback has been started with the space
  key, or during a recap. The click is dropped when the video has no size or the scale
  is not positive. There is no test of \<open>currentEntry\<close>.
\<close>

definition handleVideoClick :: "int \<Rightarrow> click_event \<Rightarrow> state \<Rightarrow> state" where
  "handleVideoClick now ev s =
     (if \<not> spacePressed s \<and> \<not> (isRewinding s \<and> recapEndTime s \<noteq> None) then s
      else
        (let s3 = pause_video (clearUndoDots now s);
             v = video s3;
             videoOffsetX = rectLeft v - containerLeft s3;
             videoOffsetY = rectTop v - containerTop s3;
             clickX = clientX ev - containerLeft s3 - videoOffsetX;
             clickY = clientY ev - containerTop s3 - videoOffsetY
         in if videoWidth v = 0 \<or> videoHeight v = 0 \<or> rectWidth v = 0 \<or> rectHeight v = 0
            then s3
            else
              (let scaleX = videoWidth v / rectWidth v;
                   scaleY = videoHeight v / rectHeight v
               in if scaleX \<le> 0 \<or> scaleY \<le> 0 then s3
                  else showChoiceModal now
                         (drawRedDots now
                            (openDraft now ev (clickX * scaleX) (clickY * scaleY) s3)))))"

section \<open>Recap\<close>

text \<open>
  The \<open>reduce\<close> over the log that finds the latest playback time; entries without a
  playback time are skipped, \<open>None\<close> is the initial \<open>null\<close>.
\<close>

definition latestEntryTime :: "entry list \<Rightarrow> real option" where
  "latestEntryTime entries =
     fold (\<lambda>e latest.
             case playback_time_seconds e of
               None \<Rightarrow> latest
             | Some entryT \<Rightarrow>
                 (case latest of
                    None \<Rightarrow> Some entryT
                  | Some latestT \<Rightarrow> if latestT < entryT then Some entryT else Some latestT))
          entries None"

text \<open>
  \<open>startRecap\<close> up to the assignment of the new playback position. What follows the
  seek runs in a \<open>seeked\<close> listener, which is recorded in the state. The video element
  is taken to exist. The test \<open>!latestEntry\<close> also holds of the number zero.
\<close>

definition startRecapWith :: "real \<Rightarrow> state \<Rightarrow> state" where
  "startRecapWith rewindSeconds s =
     (if masterLog s = []
      then (let newPlaybackTime = max 0 (currentTime (video s) - rewindSeconds)
            in (seek_video newPlaybackTime s)\<lparr>seekedListeners :=
                  seekedListeners s @ [PauseOnly]\<rparr>)
      else
        (case latestEntryTime (masterLog s) of
           None \<Rightarrow> s
         | Some latestEntry \<Rightarrow>
             if latestEntry = 0 then s
             else
               (let s1 = s\<lparr>recapEndTime := Some latestEntry, recapCompleted := False\<rparr>;
                    newPlaybackTime = max 0 (currentTime (video s1) - rewindSeconds)
                in (seek_video newPlaybackTime s1)\<lparr>seekedListeners :=
                      seekedListeners s1 @ [EnterRewind]\<rparr>)))"

text \<open>
  The recap manager of \<open>recap.js\<close> rewinds 10 seconds; the inline fallback of the
  renderer, used when the module is not loaded, rewinds 60 seconds.
\<close>

definition startRecap :: "state \<Rightarrow> state" where
  "startRecap s = (if recapManagerLoaded s then startRecapWith 10 s else startRecapWith 60 s)"

definition preAddDot ::
  "real \<Rightarrow> real \<Rightarrow> int \<Rightarrow> entry \<Rightarrow> (string \<times> dot) list \<Rightarrow> (string \<times> dot) list" where
  "preAddDot currentTimeAfterSeek endTime now e dots =
     (case playback_time_seconds e of
        None \<Rightarrow> dots
      | Some entryT \<Rightarrow>
          if currentTimeAfterSeek \<le> entryT \<and> entryT \<le> endTime
          then (if map_of dots (entryId e) = None
                then AList.update (entryId e) (rewindDot now entryT) dots else dots)
          else dots)"

text \<open>
  The listeners. The second one formats \<open>recapEndTime\<close> for the log right after it has
  paused and set \<open>isRewinding\<close>; were the end time \<open>null\<close> by then, that would throw
  and the rest of the listener would not run.
\<close>

definition runSeekedListener :: "int \<Rightarrow> seeked_listener \<Rightarrow> state \<Rightarrow> state" where
  "runSeekedListener now l s =
     (case l of
        PauseOnly \<Rightarrow> pause_video s
      | EnterRewind \<Rightarrow>
          (let s1 = (pause_video s)\<lparr>isRewinding := True\<rparr>
           in case recapEndTime s1 of
                None \<Rightarrow> s1
              | Some r \<Rightarrow>
                  drawRedDots now
                    (s1\<lparr>activeDots :=
                          fold (preAddDot (currentTime (video s1)) r now) (masterLog s1)
                               (activeDots s1)\<rparr>)))"

definition seeked :: "int \<Rightarrow> state \<Rightarrow> state" where
  "seeked now s = fold (runSeekedListener now) (seekedListeners s) (s\<lparr>seekedListeners := []\<rparr>)"

definition checkRecapProgress :: "real \<Rightarrow> state \<Rightarrow> bool \<times> state" where
  "checkRecapProgress curTime s =
     (case recapEndTime s of
        None \<Rightarrow> (False, s)
      | Some r \<Rightarrow>
          if \<not> isRewinding s then (False, s)
          else
            (let r' = (case latestEntryTime (masterLog s) of
                         None \<Rightarrow> r
                       | Some latestEntry \<Rightarrow>
                           if latestEntry \<noteq> 0 \<and> r < latestEntry then latestEntry else r)
             in (r' - 0.5 \<le> curTime, s\<lparr>recapEndTime := Some r'\<rparr>)))"

definition clearRewindDots :: "(string \<times> dot) list \<Rightarrow> (string \<times> dot) list" where
  "clearRewindDots dots =
     fold (\<lambda>(eid, dotInfo) ds. if phase dotInfo = Rewind then AList.delete eid ds else ds)
          dots dots"

definition completeRecap :: "state \<Rightarrow> state" where
  "completeRecap s =
     s\<lparr>recapEndTime := None, isRewinding := False, recapCompleted := True,
       activeDots := clearRewindDots (activeDots s)\<rparr>"

definition exitRecap :: "state \<Rightarrow> state" where
  "exitRecap s =
     s\<lparr>recapCompleted := False, isRewinding := False, recapEndTime := None,
       rewindStartTime := None, activeDots := clearRewindDots (activeDots s)\<rparr>"

text \<open>
  The \<open>reduce\<close> of the inline \<open>timeupdate\<close> code keeps the latest entry, not its time.
  It reads the time of the entry kept so far as \<open>latest.playback_time_seconds || latest\<close>,
  which is not a number when that time is zero; no later entry compares greater then.
\<close>

definition latestEntryInline :: "entry list \<Rightarrow> entry option" where
  "latestEntryInline entries =
     fold (\<lambda>e latest.
             case playback_time_seconds e of
               None \<Rightarrow> latest
             | Some entryT \<Rightarrow>
                 (case latest of
                    None \<Rightarrow> Some e
                  | Some l \<Rightarrow>
                      (case playback_time_seconds l of
                         None \<Rightarrow> latest
                       | Some latestT \<Rightarrow>
                           if latestT \<noteq> 0 \<and> latestT < entryT then Some e else latest)))
          entries None"

definition timeupdateRecap :: "int \<Rightarrow> state \<Rightarrow> state" where
  "timeupdateRecap now s =
     (case recapEndTime s of
        None \<Rightarrow> s
      | Some r \<Rightarrow>
          if \<not> isRewinding s then s
          else
            (let curTime = currentTime (video s)
             in if recapManagerLoaded s
                then (case checkRecapProgress curTime s of
                        (shouldPause, s1) \<Rightarrow>
                          if shouldPause then drawRedDots now (completeRecap (pause_video s1))
                          else s1)
                else
                  (case (case latestEntryInline (masterLog s) of
                           None \<Rightarrow> None
                         | Some l \<Rightarrow> playback_time_seconds l) of
                     None \<Rightarrow> s
                   | Some latestT \<Rightarrow>
                       if latestT = 0 then s
                       else
                         (let r' = (if r < latestT then latestT else r);
                              s1 = s\<lparr>recapEndTime := Some r'\<rparr>
                          in if r' - 0.5 \<le> curTime
                             then drawRedDots now (completeRecap (pause_video s1))
                             else s1))))"

definition timeupdateLegacy :: "int \<Rightarrow> state \<Rightarrow> state" where
  "timeupdateLegacy now s =
     (case rewindStartTime s of
        None \<Rightarrow> s
      | Some startT \<Rightarrow>
          if isRewinding s \<and> recapEndTime s = None \<and> startT \<le> currentTime (video s)
          then drawRedDots now
                 ((pause_video s)\<lparr>isRewinding := False, rewindStartTime := None,
                                   activeDots := clearRewindDots (activeDots s)\<rparr>)
          else s)"

text \<open>The \<open>timeupdate\<close> listener of the video: one tick of the playback clock.\<close>

definition timeupdate :: "int \<Rightarrow> state \<Rightarrow> state" where
  "timeupdate now s = timeupdateLegacy now (timeupdateRecap now (drawRedDots now s))"

text \<open>The playback times found in a log, in log order.\<close>

definition entryTimes :: "entry list \<Rightarrow> real list" where
  "entryTimes entries =
     concat (map (\<lambda>e. case playback_time_seconds e of None \<Rightarrow> [] | Some t \<Rightarrow> [t]) entries)"

text \<open>The rewind offset in force: 10 seconds with the recap module, 60 without.\<close>

definition rewindOffset :: "state \<Rightarrow> real" where
  "rewindOffset s = (if recapManagerLoaded s then 10 else 60)"

section \<open>Undo and redo\<close>

definition currentSnapshot :: "int \<Rightarrow> state \<Rightarrow> snapshot" where
  "currentSnapshot now s =
     \<lparr>snap_masterLog = masterLog s, snap_newEntries = newEntries s,
      snap_deletedEntryIds = deletedEntryIds s, snap_timestamp = now\<rparr>"

definition restoreSnapshot :: "snapshot \<Rightarrow> state \<Rightarrow> state" where
  "restoreSnapshot snap s =
     s\<lparr>masterLog := snap_masterLog snap, newEntries := snap_newEntries snap,
       deletedEntryIds := snap_deletedEntryIds snap\<rparr>"

text \<open>Seek to an undone or redone entry and pause there.\<close>

definition jumpToEntry :: "entry \<Rightarrow> state \<Rightarrow> state" where
  "jumpToEntry e s =
     (let entryActualTime = getEntryCorrectedTime s e;
          playbackTime = entryActualTime - videoStartSeconds s
      in pause_video (seek_video (max 0 playbackTime) s))"

definition undoDot :: "int \<Rightarrow> dot" where
  "undoDot now = \<lparr>color = Orange, startTime = now, phase = Undo, entryTime = None\<rparr>"

text \<open>The most recent log entry that is not in the snapshot about to be restored.\<close>

definition lastRemovedEntry :: "state \<Rightarrow> entry option" where
  "lastRemovedEntry s =
     (let previousSnapshot = last (undoStack s);
          previousEntryIds = set (map entryId (snap_masterLog previousSnapshot))
      in find (\<lambda>e. entryId e \<notin> previousEntryIds) (rev (masterLog s)))"

text \<open>
  After the restore: jump to the undone entry and give it an orange dot; without an
  undone entry all dots are cleared.
\<close>

definition showUndone :: "int \<Rightarrow> entry option \<Rightarrow> state \<Rightarrow> state" where
  "showUndone now removed s =
     (case removed of
        None \<Rightarrow> s\<lparr>activeDots := []\<rparr>
      | Some e \<Rightarrow>
          if playback_time_seconds e \<noteq> None
          then (jumpToEntry e s)\<lparr>activeDots :=
                  AList.update (entryId e) (undoDot now) (activeDots s)\<rparr>
          else s)"

text \<open>The fallback of \<open>undoLastEntry\<close> for an empty undo stack: pop the last log entry.\<close>

definition undoPop :: "int \<Rightarrow> state \<Rightarrow> state" where
  "undoPop now s =
     (let lastEntry = last (masterLog s);
          s1 = s\<lparr>masterLog := butlast (masterLog s)\<rparr>;
          s2 = (if playback_time_seconds lastEntry \<noteq> None then jumpToEntry lastEntry s1
                else s1)
      in drawRedDots now
           (s2\<lparr>activeDots :=
                 AList.update (entryId lastEntry) (undoDot now) (activeDots s2)\<rparr>))"

definition undoLastEntry :: "int \<Rightarrow> state \<Rightarrow> state" where
  "undoLastEntry now s =
     (if undoStack s \<noteq> []
      then showToast ''Undone'' Success
             (drawRedDots now
                (showUndone now (lastRemovedEntry s)
                   (restoreSnapshot (last (undoStack s))
                      (s\<lparr>redoStack := redoStack s @ [currentSnapshot now s],
                         undoStack := butlast (undoStack s)\<rparr>))))
      else if masterLog s = [] then showToast ''Nothing to undo'' Warning s
      else undoPop now s)"


definition showRedone :: "entry option \<Rightarrow> state \<Rightarrow> state" where
  "showRedone restored s =
     (let s1 = (case restored of
                  None \<Rightarrow> s
                | Some e \<Rightarrow> if playback_time_seconds e \<noteq> None then jumpToEntry e s else s)
      in s1\<lparr>activeDots := []\<rparr>)"


section \<open>Audit mode: deletion and export\<close>


definition finishDelete :: "int \<Rightarrow> entry \<Rightarrow> state \<Rightarrow> state" where
  "finishDelete now e s =
     showToast ''Entry deleted'' Success
       (drawRedDots now
          (s\<lparr>redoStack := [], activeDots := AList.delete (entryId e) (activeDots s)\<rparr>))"


text \<open>
  The left click on a line of the logs panel, installed in audit mode only: it marks the
  entry as deleted or restores it.
\<close>

definition toggleDeletion :: "int \<Rightarrow> entry \<Rightarrow> state \<Rightarrow> state" where
  "toggleDeletion now e s =
     (if mode s \<noteq> AuditMode then s
      else
        (let s1 = saveStateSnapshot now s;
             s2 = (if entryId e \<in> deletedEntryIds s1
                   then s1\<lparr>deletedEntryIds := deletedEntryIds s1 - {entryId e}\<rparr>
                   else s1\<lparr>deletedEntryIds := insert (entryId e) (deletedEntryIds s1)\<rparr>)
         in s2\<lparr>redoStack := []\<rparr>))"


text \<open>
  The entries that \<open>exportToCSV\<close> writes: in audit mode the original entries and the new
  entries that are not marked deleted, otherwise the whole log.
\<close>

definition entriesToExport :: "state \<Rightarrow> entry list" where
  "entriesToExport s =
     (if mode s = AuditMode
      then filter (\<lambda>e. entryId e \<notin> deletedEntryIds s) (originalEntries s)
           @ filter (\<lambda>e. entryId e \<notin> deletedEntryIds s) (newEntries s)
      else masterLog s)"



section \<open>Sessions and events\<close>

text \<open>The state of a new session, as \<open>createState\<close> builds it, with the modules loaded.\<close>

definition createState :: state where
  "createState =
     \<lparr>config = None, videoStartTime = None, masterLog = [], currentEntry = None,
      currentStepIndex = 0, spacePressed = False, playbackSpeed = 1, entryCounter = 0,
      activeDots = [], isRewinding = False, rewindStartTime = None, recapEndTime = None,
      recapCompleted = False, mode = EntryMode, originalEntries = [], deletedEntryIds = {},
      newEntries = [], undoStack = [], redoStack = [],
      video = \<lparr>currentTime = 0, paused = True, playbackRate = 1, videoWidth = 0,
               videoHeight = 0, rectLeft = 0, rectTop = 0, rectWidth = 0, rectHeight = 0\<rparr>,
      containerLeft = 0, containerTop = 0, canvasReady = False, modalActive = False,
      lastClickPosition = None, toasts = [], seekedListeners = [],
      recapManagerLoaded = True\<rparr>"

text \<open>A commit: \<open>finalizeEntry\<close> called at time \<open>now\<close> with \<open>e\<close> as the open draft.\<close>

definition commitDraft :: "int \<times> entry \<Rightarrow> state \<Rightarrow> state" where
  "commitDraft c s = finalizeEntry (fst c) (s\<lparr>currentEntry := Some (snd c)\<rparr>)"

text \<open>
  What happens during a review: the playback clock reports a position (a tick), the
  operator clicks on the video, answers the step shown, goes back, cancels, or the open
  draft is committed. An exception thrown by a handler leaves the state as it was before
  the handler threw; \<open>goBackToPreviousStep\<close> throws before it changes anything.
\<close>

datatype event =
    Tick real int
  | VideoClick click_event int
  | Choice string int
  | GoBack int
  | Cancel int
  | Commit int

fun apply_event :: "event \<Rightarrow> state \<Rightarrow> state" where
  "apply_event (Tick t now) s = timeupdate now (seek_video t s)"
| "apply_event (VideoClick ev now) s = handleVideoClick now ev s"
| "apply_event (Choice val now) s = answer now val s"
| "apply_event (GoBack now) s =
     (case goBackToPreviousStep now s of Inl err \<Rightarrow> s | Inr s' \<Rightarrow> s')"
| "apply_event (Cancel now) s = cancelCurrentEntry now s"
| "apply_event (Commit now) s = finalizeEntry now s"

definition run_events :: "event list \<Rightarrow> state \<Rightarrow> state" where
  "run_events evs s = fold apply_event evs s"

text \<open>\<open>n\<close> calls of \<open>goBackToPreviousStep\<close> in a row; a call that throws ends the run.\<close>

fun goBacks :: "nat \<Rightarrow> int \<Rightarrow> state \<Rightarrow> js_error + state" where
  "goBacks 0 now s = Inr s"
| "goBacks (Suc n) now s =
     (case goBackToPreviousStep now s of Inl err \<Rightarrow> Inl err | Inr s' \<Rightarrow> goBacks n now s')"

text \<open>Forward answers, one value for each step shown in turn.\<close>

definition answers :: "int \<Rightarrow> string list \<Rightarrow> state \<Rightarrow> state" where
  "answers now vals s = fold (answer now) vals s"

text \<open>
  The recap window of a state, when one is active, and what it means for a later state
  \<open>s'\<close> to have kept the window of \<open>s\<close>: the log has only grown, and a window
  active in \<open>s'\<close> was active in \<open>s\<close> already, with the same end time or extended
  to the later playback time of an entry of the log.
\<close>

definition activeWindow :: "state \<Rightarrow> real option" where
  "activeWindow s = (if isRewinding s then recapEndTime s else None)"

definition windowKept :: "state \<Rightarrow> state \<Rightarrow> bool" where
  "windowKept s s' =
     (set (masterLog s) \<subseteq> set (masterLog s')
      \<and> (case activeWindow s' of
            None \<Rightarrow> True
          | Some e' \<Rightarrow>
              (case activeWindow s of
                 None \<Rightarrow> False
               | Some e \<Rightarrow> e' = e \<or> (e < e' \<and> e' \<in> set (entryTimes (masterLog s'))))))"

text \<open>
  The dots that do not belong to the review: waiting, finalized and undo dots. A
  finalized dot runs out 1.75 seconds after it was set; the next drawing removes it.
\<close>

definition temporaryDot :: "dot \<Rightarrow> bool" where
  "temporaryDot d = (phase d = Waiting \<or> phase d = Finalized \<or> phase d = Undo)"

definition runOut :: "int \<Rightarrow> dot \<Rightarrow> bool" where
  "runOut now d = (phase d = Finalized \<and> 1.75 \<le> real_of_int (now - startTime d) / 1000)"

text \<open>
  A dot is kept for an entry in a state when the map holds exactly this dot for the
  entry, or holds no dot for it while the entry is neither the open draft nor in the
  log.
\<close>

definition dotKept :: "string \<Rightarrow> dot \<Rightarrow> state \<Rightarrow> bool" where
  "dotKept eid d s =
     (map_of (activeDots s) eid = Some d
      \<or> (map_of (activeDots s) eid = None \<and> findEntry s eid = None))"

section \<open>Example sessions\<close>

definition exampleDraft :: entry where
  "exampleDraft = \<lparr>entryId = ''entry_1_0'', playback_time_seconds = Some 3.5,
     ocr_timestamp = [], click_x = 100, click_y = 50, stepValues = [(''VehicleType'', ''car'')]\<rparr>"

text \<open>
  The config of the first scenario: a vehicle type, and a licence plate asked for trucks
  only.
\<close>

definition exampleSteps :: "step list" where
  "exampleSteps =
     [\<lparr>step_id = ''VehicleType'', step_condition = None\<rparr>,
      \<lparr>step_id = ''LicensePlate'',
       step_condition = Some \<lparr>cond_step_id = Some ''VehicleType'', cond_operator = None,
                              cond_value = Some ''truck'', cond_values = None\<rparr>\<rparr>]"

text \<open>A session on the counting screen: config loaded, video laid out, playback started.\<close>

definition exampleSession :: state where
  "exampleSession =
     createState\<lparr>config := Some exampleSteps, spacePressed := True, canvasReady := True,
       video := \<lparr>currentTime = 20, paused = False, playbackRate = 1, videoWidth = 1920,
                 videoHeight = 1080, rectLeft = 0, rectTop = 0, rectWidth = 960,
                 rectHeight = 540\<rparr>\<rparr>"



text \<open>
  A session restored from a file or started over a loaded CSV: the log holds an entry,
  the undo stack is empty.
\<close>

definition loadedSession :: state where
  "loadedSession = exampleSession\<lparr>masterLog := [exampleDraft\<lparr>ocr_timestamp := ''07:00:02''\<rparr>]\<rparr>"

text \<open>
  The third scenario: entries at 5 s and 30 s, playback at 40 s, the inline recap with
  its 60-second rewind.
\<close>

definition entryAt :: "string \<Rightarrow> real \<Rightarrow> entry" where
  "entryAt eid t = \<lparr>entryId = eid, playback_time_seconds = Some t, ocr_timestamp = ''00:00:00'',
     click_x = 100, click_y = 50, stepValues = [(''VehicleType'', ''car'')]\<rparr>"

definition reviewSession :: state where
  "reviewSession =
     exampleSession\<lparr>masterLog := [entryAt ''entry_1_0'' 5, entryAt ''entry_2_1'' 30],
       video := (video exampleSession)\<lparr>currentTime := 40\<rparr>, recapManagerLoaded := False\<rparr>"

text \<open>
  The review of the third scenario under way: the recap is active with its end at 30 s,
  playback is at 10 s, and a draft clicked at 35 s is open.
\<close>

definition rewindingSession :: state where
  "rewindingSession =
     reviewSession\<lparr>isRewinding := True, recapEndTime := Some 30, recapManagerLoaded := True,
       currentEntry := Some (entryAt ''entry_3_2'' 35),
       video := (video exampleSession)\<lparr>currentTime := 10\<rparr>\<rparr>"

text \<open>The same review with the green dot of the open draft on the canvas.\<close>

definition waitingDot :: dot where
  "waitingDot = \<lparr>color = Green, startTime = 4000, phase = Waiting, entryTime = None\<rparr>"

definition draftingInReview :: state where
  "draftingInReview = rewindingSession\<lparr>activeDots := [(''entry_3_2'', waitingDot)]\<rparr>"




text \<open>
  A draft just opened by a click, with the modal of the first step on show, and the same
  over a config with a third, unconditional step.
\<close>

definition emptyDraft :: entry where
  "emptyDraft = \<lparr>entryId = ''entry_4_3'', playback_time_seconds = Some 20,
     ocr_timestamp = [], click_x = 10, click_y = 20, stepValues = []\<rparr>"

definition draftSession :: state where
  "draftSession = exampleSession\<lparr>currentEntry := Some emptyDraft, modalActive := True\<rparr>"

definition routeSteps :: "step list" where
  "routeSteps = exampleSteps @ [\<lparr>step_id = ''Direction'', step_condition = None\<rparr>]"

definition routeSession :: state where
  "routeSession = draftSession\<lparr>config := Some routeSteps\<rparr>"

section \<open>Properties\<close>

subsection \<open>Timestamps\<close>








subsection \<open>What drawing and playback control leave alone\<close>

lemma drawRedDots_fields [simp]:
  "config (drawRedDots now s) = config s"
  "videoStartTime (drawRedDots now s) = videoStartTime s"
  "masterLog (drawRedDots now s) = masterLog s"
  "currentEntry (drawRedDots now s) = currentEntry s"
  "currentStepIndex (drawRedDots now s) = currentStepIndex s"
  "spacePressed (drawRedDots now s) = spacePressed s"
  "playbackSpeed (drawRedDots now s) = playbackSpeed s"
  "entryCounter (drawRedDots now s) = entryCounter s"
  "isRewinding (drawRedDots now s) = isRewinding s"
  "rewindStartTime (drawRedDots now s) = rewindStartTime s"
  "recapEndTime (drawRedDots now s) = recapEndTime s"
  "recapCompleted (drawRedDots now s) = recapCompleted s"
  "mode (drawRedDots now s) = mode s"
  "originalEntries (drawRedDots now s) = originalEntries s"
  "deletedEntryIds (drawRedDots now s) = deletedEntryIds s"
  "newEntries (drawRedDots now s) = newEntries s"
  "undoStack (drawRedDots now s) = undoStack s"
  "redoStack (drawRedDots now s) = redoStack s"
  "video (drawRedDots now s) = video s"
  "containerLeft (drawRedDots now s) = containerLeft s"
  "containerTop (drawRedDots now s) = containerTop s"
  "canvasReady (drawRedDots now s) = canvasReady s"
  "modalActive (drawRedDots now s) = modalActive s"
  "lastClickPosition (drawRedDots now s) = lastClickPosition s"
  "toasts (drawRedDots now s) = toasts s"
  "seekedListeners (drawRedDots now s) = seekedListeners s"
  "recapManagerLoaded (drawRedDots now s) = recapManagerLoaded s"
  by (simp_all add: drawRedDots_def Let_def)

lemma play_video_fields [simp]:
  "config (play_video s) = config s"
  "videoStartTime (play_video s) = videoStartTime s"
  "masterLog (play_video s) = masterLog s"
  "currentEntry (play_video s) = currentEntry s"
  "currentStepIndex (play_video s) = currentStepIndex s"
  "spacePressed (play_video s) = spacePressed s"
  "playbackSpeed (play_video s) = playbackSpeed s"
  "entryCounter (play_video s) = entryCounter s"
  "activeDots (play_video s) = activeDots s"
  "isRewinding (play_video s) = isRewinding s"
  "rewindStartTime (play_video s) = rewindStartTime s"
  "recapEndTime (play_video s) = recapEndTime s"
  "recapCompleted (play_video s) = recapCompleted s"
  "mode (play_video s) = mode s"
  "originalEntries (play_video s) = originalEntries s"
  "deletedEntryIds (play_video s) = deletedEntryIds s"
  "newEntries (play_video s) = newEntries s"
  "undoStack (play_video s) = undoStack s"
  "redoStack (play_video s) = redoStack s"
  "containerLeft (play_video s) = containerLeft s"
  "containerTop (play_video s) = containerTop s"
  "canvasReady (play_video s) = canvasReady s"
  "modalActive (play_video s) = modalActive s"
  "lastClickPosition (play_video s) = lastClickPosition s"
  "toasts (play_video s) = toasts s"
  "seekedListeners (play_video s) = seekedListeners s"
  "recapManagerLoaded (play_video s) = recapManagerLoaded s"
  by (simp_all add: play_video_def)

lemma pause_video_fields [simp]:
  "config (pause_video s) = config s"
  "videoStartTime (pause_video s) = videoStartTime s"
  "masterLog (pause_video s) = masterLog s"
  "currentEntry (pause_video s) = currentEntry s"
  "currentStepIndex (pause_video s) = currentStepIndex s"
  "spacePressed (pause_video s) = spacePressed s"
  "playbackSpeed (pause_video s) = playbackSpeed s"
  "entryCounter (pause_video s) = entryCounter s"
  "activeDots (pause_video s) = activeDots s"
  "isRewinding (pause_video s) = isRewinding s"
  "rewindStartTime (pause_video s) = rewindStartTime s"
  "recapEndTime (pause_video s) = recapEndTime s"
  "recapCompleted (pause_video s) = recapCompleted s"
  "mode (pause_video s) = mode s"
  "originalEntries (pause_video s) = originalEntries s"
  "deletedEntryIds (pause_video s) = deletedEntryIds s"
  "newEntries (pause_video s) = newEntries s"
  "undoStack (pause_video s) = undoStack s"
  "redoStack (pause_video s) = redoStack s"
  "containerLeft (pause_video s) = containerLeft s"
  "containerTop (pause_video s) = containerTop s"
  "canvasReady (pause_video s) = canvasReady s"
  "modalActive (pause_video s) = modalActive s"
  "lastClickPosition (pause_video s) = lastClickPosition s"
  "toasts (pause_video s) = toasts s"
  "seekedListeners (pause_video s) = seekedListeners s"
  "recapManagerLoaded (pause_video s) = recapManagerLoaded s"
  by (simp_all add: pause_video_def)

lemma seek_video_fields [simp]:
  "config (seek_video t s) = config s"
  "videoStartTime (seek_video t s) = videoStartTime s"
  "masterLog (seek_video t s) = masterLog s"
  "currentEntry (seek_video t s) = currentEntry s"
  "currentStepIndex (seek_video t s) = currentStepIndex s"
  "spacePressed (seek_video t s) = spacePressed s"
  "playbackSpeed (seek_video t s) = playbackSpeed s"
  "entryCounter (seek_video t s) = entryCounter s"
  "activeDots (seek_video t s) = activeDots s"
  "isRewinding (seek_video t s) = isRewinding s"
  "rewindStartTime (seek_video t s) = rewindStartTime s"
  "recapEndTime (seek_video t s) = recapEndTime s"
  "recapCompleted (seek_video t s) = recapCompleted s"
  "mode (seek_video t s) = mode s"
  "originalEntries (seek_video t s) = originalEntries s"
  "deletedEntryIds (seek_video t s) = deletedEntryIds s"
  "newEntries (seek_video t s) = newEntries s"
  "undoStack (seek_video t s) = undoStack s"
  "redoStack (seek_video t s) = redoStack s"
  "containerLeft (seek_video t s) = containerLeft s"
  "containerTop (seek_video t s) = containerTop s"
  "canvasReady (seek_video t s) = canvasReady s"
  "modalActive (seek_video t s) = modalActive s"
  "lastClickPosition (seek_video t s) = lastClickPosition s"
  "toasts (seek_video t s) = toasts s"
  "seekedListeners (seek_video t s) = seekedListeners s"
  "recapManagerLoaded (seek_video t s) = recapManagerLoaded s"
  by (simp_all add: seek_video_def)

lemma showToast_fields [simp]:
  "config (showToast message ty s) = config s"
  "videoStartTime (showToast message ty s) = videoStartTime s"
  "masterLog (showToast message ty s) = masterLog s"
  "currentEntry (showToast message ty s) = currentEntry s"
  "currentStepIndex (showToast message ty s) = currentStepIndex s"
  "spacePressed (showToast message ty s) = spacePressed s"
  "playbackSpeed (showToast message ty s) = playbackSpeed s"
  "entryCounter (showToast message ty s) = entryCounter s"
  "activeDots (showToast message ty s) = activeDots s"
  "isRewinding (showToast message ty s) = isRewinding s"
  "rewindStartTime (showToast message ty s) = rewindStartTime s"
  "recapEndTime (showToast message ty s) = recapEndTime s"
  "recapCompleted (showToast message ty s) = recapCompleted s"
  "mode (showToast message ty s) = mode s"
  "originalEntries (showToast message ty s) = originalEntries s"
  "deletedEntryIds (showToast message ty s) = deletedEntryIds s"
  "newEntries (showToast message ty s) = newEntries s"
  "undoStack (showToast message ty s) = undoStack s"
  "redoStack (showToast message ty s) = redoStack s"
  "video (showToast message ty s) = video s"
  "containerLeft (showToast message ty s) = containerLeft s"
  "containerTop (showToast message ty s) = containerTop s"
  "canvasReady (showToast message ty s) = canvasReady s"
  "modalActive (showToast message ty s) = modalActive s"
  "lastClickPosition (showToast message ty s) = lastClickPosition s"
  "seekedListeners (showToast message ty s) = seekedListeners s"
  "recapManagerLoaded (showToast message ty s) = recapManagerLoaded s"
  by (simp_all add: showToast_def)

lemma saveStateSnapshot_fields [simp]:
  "config (saveStateSnapshot now s) = config s"
  "videoStartTime (saveStateSnapshot now s) = videoStartTime s"
  "masterLog (saveStateSnapshot now s) = masterLog s"
  "currentEntry (saveStateSnapshot now s) = currentEntry s"
  "currentStepIndex (saveStateSnapshot now s) = currentStepIndex s"
  "spacePressed (saveStateSnapshot now s) = spacePressed s"
  "playbackSpeed (saveStateSnapshot now s) = playbackSpeed s"
  "entryCounter (saveStateSnapshot now s) = entryCounter s"
  "activeDots (saveStateSnapshot now s) = activeDots s"
  "isRewinding (saveStateSnapshot now s) = isRewinding s"
  "rewindStartTime (saveStateSnapshot now s) = rewindStartTime s"
  "recapEndTime (saveStateSnapshot now s) = recapEndTime s"
  "recapCompleted (saveStateSnapshot now s) = recapCompleted s"
  "mode (saveStateSnapshot now s) = mode s"
  "originalEntries (saveStateSnapshot now s) = originalEntries s"
  "deletedEntryIds (saveStateSnapshot now s) = deletedEntryIds s"
  "newEntries (saveStateSnapshot now s) = newEntries s"
  "redoStack (saveStateSnapshot now s) = redoStack s"
  "video (saveStateSnapshot now s) = video s"
  "containerLeft (saveStateSnapshot now s) = containerLeft s"
  "containerTop (saveStateSnapshot now s) = containerTop s"
  "canvasReady (saveStateSnapshot now s) = canvasReady s"
  "modalActive (saveStateSnapshot now s) = modalActive s"
  "lastClickPosition (saveStateSnapshot now s) = lastClickPosition s"
  "toasts (saveStateSnapshot now s) = toasts s"
  "seekedListeners (saveStateSnapshot now s) = seekedListeners s"
  "recapManagerLoaded (saveStateSnapshot now s) = recapManagerLoaded s"
  by (simp_all add: saveStateSnapshot_def Let_def)

lemma recordEntry_fields [simp]:
  "config (recordEntry now entryCopy s) = config s"
  "videoStartTime (recordEntry now entryCopy s) = videoStartTime s"
  "currentEntry (recordEntry now entryCopy s) = currentEntry s"
  "currentStepIndex (recordEntry now entryCopy s) = currentStepIndex s"
  "spacePressed (recordEntry now entryCopy s) = spacePressed s"
  "playbackSpeed (recordEntry now entryCopy s) = playbackSpeed s"
  "entryCounter (recordEntry now entryCopy s) = entryCounter s"
  "activeDots (recordEntry now entryCopy s) = activeDots s"
  "isRewinding (recordEntry now entryCopy s) = isRewinding s"
  "rewindStartTime (recordEntry now entryCopy s) = rewindStartTime s"
  "recapEndTime (recordEntry now entryCopy s) = recapEndTime s"
  "recapCompleted (recordEntry now entryCopy s) = recapCompleted s"
  "mode (recordEntry now entryCopy s) = mode s"
  "originalEntries (recordEntry now entryCopy s) = originalEntries s"
  "deletedEntryIds (recordEntry now entryCopy s) = deletedEntryIds s"
  "video (recordEntry now entryCopy s) = video s"
  "containerLeft (recordEntry now entryCopy s) = containerLeft s"
  "containerTop (recordEntry now entryCopy s) = containerTop s"
  "canvasReady (recordEntry now entryCopy s) = canvasReady s"
  "modalActive (recordEntry now entryCopy s) = modalActive s"
  "lastClickPosition (recordEntry now entryCopy s) = lastClickPosition s"
  "toasts (recordEntry now entryCopy s) = toasts s"
  "seekedListeners (recordEntry now entryCopy s) = seekedListeners s"
  "recapManagerLoaded (recordEntry now entryCopy s) = recapManagerLoaded s"
  by (simp_all add: recordEntry_def Let_def)

lemma extendRecapForEntry_fields [simp]:
  "config (extendRecapForEntry entryCopy s) = config s"
  "videoStartTime (extendRecapForEntry entryCopy s) = videoStartTime s"
  "masterLog (extendRecapForEntry entryCopy s) = masterLog s"
  "currentEntry (extendRecapForEntry entryCopy s) = currentEntry s"
  "currentStepIndex (extendRecapForEntry entryCopy s) = currentStepIndex s"
  "spacePressed (extendRecapForEntry entryCopy s) = spacePressed s"
  "playbackSpeed (extendRecapForEntry entryCopy s) = playbackSpeed s"
  "entryCounter (extendRecapForEntry entryCopy s) = entryCounter s"
  "activeDots (extendRecapForEntry entryCopy s) = activeDots s"
  "isRewinding (extendRecapForEntry entryCopy s) = isRewinding s"
  "rewindStartTime (extendRecapForEntry entryCopy s) = rewindStartTime s"
  "recapCompleted (extendRecapForEntry entryCopy s) = recapCompleted s"
  "mode (extendRecapForEntry entryCopy s) = mode s"
  "originalEntries (extendRecapForEntry entryCopy s) = originalEntries s"
  "deletedEntryIds (extendRecapForEntry entryCopy s) = deletedEntryIds s"
  "newEntries (extendRecapForEntry entryCopy s) = newEntries s"
  "undoStack (extendRecapForEntry entryCopy s) = undoStack s"
  "redoStack (extendRecapForEntry entryCopy s) = redoStack s"
  "video (extendRecapForEntry entryCopy s) = video s"
  "containerLeft (extendRecapForEntry entryCopy s) = containerLeft s"
  "containerTop (extendRecapForEntry entryCopy s) = containerTop s"
  "canvasReady (extendRecapForEntry entryCopy s) = canvasReady s"
  "modalActive (extendRecapForEntry entryCopy s) = modalActive s"
  "lastClickPosition (extendRecapForEntry entryCopy s) = lastClickPosition s"
  "toasts (extendRecapForEntry entryCopy s) = toasts s"
  "seekedListeners (extendRecapForEntry entryCopy s) = seekedListeners s"
  "recapManagerLoaded (extendRecapForEntry entryCopy s) = recapManagerLoaded s"
  by (simp_all add: extendRecapForEntry_def split: option.splits)

lemma resetDraft_fields [simp]:
  "config (resetDraft s) = config s"
  "videoStartTime (resetDraft s) = videoStartTime s"
  "masterLog (resetDraft s) = masterLog s"
  "spacePressed (resetDraft s) = spacePressed s"
  "playbackSpeed (resetDraft s) = playbackSpeed s"
  "entryCounter (resetDraft s) = entryCounter s"
  "activeDots (resetDraft s) = activeDots s"
  "isRewinding (resetDraft s) = isRewinding s"
  "rewindStartTime (resetDraft s) = rewindStartTime s"
  "recapEndTime (resetDraft s) = recapEndTime s"
  "recapCompleted (resetDraft s) = recapCompleted s"
  "mode (resetDraft s) = mode s"
  "originalEntries (resetDraft s) = originalEntries s"
  "deletedEntryIds (resetDraft s) = deletedEntryIds s"
  "newEntries (resetDraft s) = newEntries s"
  "undoStack (resetDraft s) = undoStack s"
  "redoStack (resetDraft s) = redoStack s"
  "video (resetDraft s) = video s"
  "containerLeft (resetDraft s) = containerLeft s"
  "containerTop (resetDraft s) = containerTop s"
  "canvasReady (resetDraft s) = canvasReady s"
  "lastClickPosition (resetDraft s) = lastClickPosition s"
  "toasts (resetDraft s) = toasts s"
  "seekedListeners (resetDraft s) = seekedListeners s"
  "recapManagerLoaded (resetDraft s) = recapManagerLoaded s"
  by (simp_all add: resetDraft_def)

lemma markDotFinalized_fields [simp]:
  "config (markDotFinalized now eid s) = config s"
  "videoStartTime (markDotFinalized now eid s) = videoStartTime s"
  "masterLog (markDotFinalized now eid s) = masterLog s"
  "currentEntry (markDotFinalized now eid s) = currentEntry s"
  "currentStepIndex (markDotFinalized now eid s) = currentStepIndex s"
  "spacePressed (markDotFinalized now eid s) = spacePressed s"
  "playbackSpeed (markDotFinalized now eid s) = playbackSpeed s"
  "entryCounter (markDotFinalized now eid s) = entryCounter s"
  "isRewinding (markDotFinalized now eid s) = isRewinding s"
  "rewindStartTime (markDotFinalized now eid s) = rewindStartTime s"
  "recapEndTime (markDotFinalized now eid s) = recapEndTime s"
  "recapCompleted (markDotFinalized now eid s) = recapCompleted s"
  "mode (markDotFinalized now eid s) = mode s"
  "originalEntries (markDotFinalized now eid s) = originalEntries s"
  "deletedEntryIds (markDotFinalized now eid s) = deletedEntryIds s"
  "newEntries (markDotFinalized now eid s) = newEntries s"
  "undoStack (markDotFinalized now eid s) = undoStack s"
  "redoStack (markDotFinalized now eid s) = redoStack s"
  "video (markDotFinalized now eid s) = video s"
  "containerLeft (markDotFinalized now eid s) = containerLeft s"
  "containerTop (markDotFinalized now eid s) = containerTop s"
  "canvasReady (markDotFinalized now eid s) = canvasReady s"
  "modalActive (markDotFinalized now eid s) = modalActive s"
  "lastClickPosition (markDotFinalized now eid s) = lastClickPosition s"
  "toasts (markDotFinalized now eid s) = toasts s"
  "seekedListeners (markDotFinalized now eid s) = seekedListeners s"
  "recapManagerLoaded (markDotFinalized now eid s) = recapManagerLoaded s"
  by (simp_all add: markDotFinalized_def)

lemma resumeAfterCommit_fields [simp]:
  "config (resumeAfterCommit s) = config s"
  "videoStartTime (resumeAfterCommit s) = videoStartTime s"
  "masterLog (resumeAfterCommit s) = masterLog s"
  "currentEntry (resumeAfterCommit s) = currentEntry s"
  "currentStepIndex (resumeAfterCommit s) = currentStepIndex s"
  "spacePressed (resumeAfterCommit s) = spacePressed s"
  "playbackSpeed (resumeAfterCommit s) = playbackSpeed s"
  "entryCounter (resumeAfterCommit s) = entryCounter s"
  "activeDots (resumeAfterCommit s) = activeDots s"
  "rewindStartTime (resumeAfterCommit s) = rewindStartTime s"
  "mode (resumeAfterCommit s) = mode s"
  "originalEntries (resumeAfterCommit s) = originalEntries s"
  "deletedEntryIds (resumeAfterCommit s) = deletedEntryIds s"
  "newEntries (resumeAfterCommit s) = newEntries s"
  "undoStack (resumeAfterCommit s) = undoStack s"
  "redoStack (resumeAfterCommit s) = redoStack s"
  "containerLeft (resumeAfterCommit s) = containerLeft s"
  "containerTop (resumeAfterCommit s) = containerTop s"
  "canvasReady (resumeAfterCommit s) = canvasReady s"
  "modalActive (resumeAfterCommit s) = modalActive s"
  "lastClickPosition (resumeAfterCommit s) = lastClickPosition s"
  "toasts (resumeAfterCommit s) = toasts s"
  "seekedListeners (resumeAfterCommit s) = seekedListeners s"
  "recapManagerLoaded (resumeAfterCommit s) = recapManagerLoaded s"
  by (simp_all add: resumeAfterCommit_def Let_def split: option.splits)

lemma finalizeEntry_no_draft: "currentEntry s = None \<Longrightarrow> finalizeEntry now s = s"
  by (simp add: finalizeEntry_def)

lemma recordEntry_masterLog [simp]:
  "masterLog (recordEntry now entryCopy s) = masterLog s @ [entryCopy]"
  by (simp add: recordEntry_def Let_def)

lemma recordEntry_redoStack [simp]: "redoStack (recordEntry now entryCopy s) = []"
  by (simp add: recordEntry_def Let_def)

lemma recordEntry_newEntries [simp]:
  "newEntries (recordEntry now entryCopy s) =
     (if mode s = AuditMode then newEntries s @ [entryCopy] else newEntries s)"
  by (simp add: recordEntry_def Let_def)

lemma recordEntry_undoStack [simp]:
  "undoStack (recordEntry now entryCopy s) = undoStack (saveStateSnapshot now s)"
  by (simp add: recordEntry_def Let_def)



lemma finalizeEntry_newEntries:
  "currentEntry s = Some e \<Longrightarrow>
     newEntries (finalizeEntry now s) =
       (if mode s = AuditMode
        then newEntries s @ [e\<lparr>ocr_timestamp := calculateTimestamp s e\<rparr>] else newEntries s)"
  by (simp add: finalizeEntry_def Let_def)

lemma finalizeEntry_deletedEntryIds:
  "deletedEntryIds (finalizeEntry now s) = deletedEntryIds s"
  by (simp add: finalizeEntry_def Let_def split: option.splits)






subsection \<open>Step workflow\<close>










subsection \<open>Undo and redo\<close>

lemma restoreSnapshot_fields [simp]:
  "config (restoreSnapshot snap s) = config s"
  "videoStartTime (restoreSnapshot snap s) = videoStartTime s"
  "currentEntry (restoreSnapshot snap s) = currentEntry s"
  "currentStepIndex (restoreSnapshot snap s) = currentStepIndex s"
  "spacePressed (restoreSnapshot snap s) = spacePressed s"
  "playbackSpeed (restoreSnapshot snap s) = playbackSpeed s"
  "entryCounter (restoreSnapshot snap s) = entryCounter s"
  "activeDots (restoreSnapshot snap s) = activeDots s"
  "isRewinding (restoreSnapshot snap s) = isRewinding s"
  "rewindStartTime (restoreSnapshot snap s) = rewindStartTime s"
  "recapEndTime (restoreSnapshot snap s) = recapEndTime s"
  "recapCompleted (restoreSnapshot snap s) = recapCompleted s"
  "mode (restoreSnapshot snap s) = mode s"
  "originalEntries (restoreSnapshot snap s) = originalEntries s"
  "undoStack (restoreSnapshot snap s) = undoStack s"
  "redoStack (restoreSnapshot snap s) = redoStack s"
  "video (restoreSnapshot snap s) = video s"
  "containerLeft (restoreSnapshot snap s) = containerLeft s"
  "containerTop (restoreSnapshot snap s) = containerTop s"
  "canvasReady (restoreSnapshot snap s) = canvasReady s"
  "modalActive (restoreSnapshot snap s) = modalActive s"
  "lastClickPosition (restoreSnapshot snap s) = lastClickPosition s"
  "toasts (restoreSnapshot snap s) = toasts s"
  "seekedListeners (restoreSnapshot snap s) = seekedListeners s"
  "recapManagerLoaded (restoreSnapshot snap s) = recapManagerLoaded s"
  by (simp_all add: restoreSnapshot_def)

lemma jumpToEntry_fields [simp]:
  "config (jumpToEntry e s) = config s"
  "videoStartTime (jumpToEntry e s) = videoStartTime s"
  "masterLog (jumpToEntry e s) = masterLog s"
  "currentEntry (jumpToEntry e s) = currentEntry s"
  "currentStepIndex (jumpToEntry e s) = currentStepIndex s"
  "spacePressed (jumpToEntry e s) = spacePressed s"
  "playbackSpeed (jumpToEntry e s) = playbackSpeed s"
  "entryCounter (jumpToEntry e s) = entryCounter s"
  "activeDots (jumpToEntry e s) = activeDots s"
  "isRewinding (jumpToEntry e s) = isRewinding s"
  "rewindStartTime (jumpToEntry e s) = rewindStartTime s"
  "recapEndTime (jumpToEntry e s) = recapEndTime s"
  "recapCompleted (jumpToEntry e s) = recapCompleted s"
  "mode (jumpToEntry e s) = mode s"
  "originalEntries (jumpToEntry e s) = originalEntries s"
  "deletedEntryIds (jumpToEntry e s) = deletedEntryIds s"
  "newEntries (jumpToEntry e s) = newEntries s"
  "undoStack (jumpToEntry e s) = undoStack s"
  "redoStack (jumpToEntry e s) = redoStack s"
  "containerLeft (jumpToEntry e s) = containerLeft s"
  "containerTop (jumpToEntry e s) = containerTop s"
  "canvasReady (jumpToEntry e s) = canvasReady s"
  "modalActive (jumpToEntry e s) = modalActive s"
  "lastClickPosition (jumpToEntry e s) = lastClickPosition s"
  "toasts (jumpToEntry e s) = toasts s"
  "seekedListeners (jumpToEntry e s) = seekedListeners s"
  "recapManagerLoaded (jumpToEntry e s) = recapManagerLoaded s"
  by (simp_all add: jumpToEntry_def Let_def)

lemma showUndone_fields [simp]:
  "config (showUndone now removed s) = config s"
  "videoStartTime (showUndone now removed s) = videoStartTime s"
  "masterLog (showUndone now removed s) = masterLog s"
  "currentEntry (showUndone now removed s) = currentEntry s"
  "currentStepIndex (showUndone now removed s) = currentStepIndex s"
  "spacePressed (showUndone now removed s) = spacePressed s"
  "playbackSpeed (showUndone now removed s) = playbackSpeed s"
  "entryCounter (showUndone now removed s) = entryCounter s"
  "isRewinding (showUndone now removed s) = isRewinding s"
  "rewindStartTime (showUndone now removed s) = rewindStartTime s"
  "recapEndTime (showUndone now removed s) = recapEndTime s"
  "recapCompleted (showUndone now removed s) = recapCompleted s"
  "mode (showUndone now removed s) = mode s"
  "originalEntries (showUndone now removed s) = originalEntries s"
  "deletedEntryIds (showUndone now removed s) = deletedEntryIds s"
  "newEntries (showUndone now removed s) = newEntries s"
  "undoStack (showUndone now removed s) = undoStack s"
  "redoStack (showUndone now removed s) = redoStack s"
  "containerLeft (showUndone now removed s) = containerLeft s"
  "containerTop (showUndone now removed s) = containerTop s"
  "canvasReady (showUndone now removed s) = canvasReady s"
  "modalActive (showUndone now removed s) = modalActive s"
  "lastClickPosition (showUndone now removed s) = lastClickPosition s"
  "toasts (showUndone now removed s) = toasts s"
  "seekedListeners (showUndone now removed s) = seekedListeners s"
  "recapManagerLoaded (showUndone now removed s) = recapManagerLoaded s"
  by (simp_all add: showUndone_def split: option.splits)

lemma showRedone_fields [simp]:
  "config (showRedone restored s) = config s"
  "videoStartTime (showRedone restored s) = videoStartTime s"
  "masterLog (showRedone restored s) = masterLog s"
  "currentEntry (showRedone restored s) = currentEntry s"
  "currentStepIndex (showRedone restored s) = currentStepIndex s"
  "spacePressed (showRedone restored s) = spacePressed s"
  "playbackSpeed (showRedone restored s) = playbackSpeed s"
  "entryCounter (showRedone restored s) = entryCounter s"
  "isRewinding (showRedone restored s) = isRewinding s"
  "rewindStartTime (showRedone restored s) = rewindStartTime s"
  "recapEndTime (showRedone restored s) = recapEndTime s"
  "recapCompleted (showRedone restored s) = recapCompleted s"
  "mode (showRedone restored s) = mode s"
  "originalEntries (showRedone restored s) = originalEntries s"
  "deletedEntryIds (showRedone restored s) = deletedEntryIds s"
  "newEntries (showRedone restored s) = newEntries s"
  "undoStack (showRedone restored s) = undoStack s"
  "redoStack (showRedone restored s) = redoStack s"
  "containerLeft (showRedone restored s) = containerLeft s"
  "containerTop (showRedone restored s) = containerTop s"
  "canvasReady (showRedone restored s) = canvasReady s"
  "modalActive (showRedone restored s) = modalActive s"
  "lastClickPosition (showRedone restored s) = lastClickPosition s"
  "toasts (showRedone restored s) = toasts s"
  "seekedListeners (showRedone restored s) = seekedListeners s"
  "recapManagerLoaded (showRedone restored s) = recapManagerLoaded s"
  by (simp_all add: showRedone_def Let_def split: option.splits)

lemma undoPop_fields [simp]:
  "config (undoPop now s) = config s"
  "videoStartTime (undoPop now s) = videoStartTime s"
  "currentEntry (undoPop now s) = currentEntry s"
  "currentStepIndex (undoPop now s) = currentStepIndex s"
  "spacePressed (undoPop now s) = spacePressed s"
  "playbackSpeed (undoPop now s) = playbackSpeed s"
  "entryCounter (undoPop now s) = entryCounter s"
  "isRewinding (undoPop now s) = isRewinding s"
  "rewindStartTime (undoPop now s) = rewindStartTime s"
  "recapEndTime (undoPop now s) = recapEndTime s"
  "recapCompleted (undoPop now s) = recapCompleted s"
  "mode (undoPop now s) = mode s"
  "originalEntries (undoPop now s) = originalEntries s"
  "deletedEntryIds (undoPop now s) = deletedEntryIds s"
  "newEntries (undoPop now s) = newEntries s"
  "undoStack (undoPop now s) = undoStack s"
  "redoStack (undoPop now s) = redoStack s"
  "containerLeft (undoPop now s) = containerLeft s"
  "containerTop (undoPop now s) = containerTop s"
  "canvasReady (undoPop now s) = canvasReady s"
  "modalActive (undoPop now s) = modalActive s"
  "lastClickPosition (undoPop now s) = lastClickPosition s"
  "toasts (undoPop now s) = toasts s"
  "seekedListeners (undoPop now s) = seekedListeners s"
  "recapManagerLoaded (undoPop now s) = recapManagerLoaded s"
  by (simp_all add: undoPop_def Let_def)

lemma restoreSnapshot_restores [simp]:
  "masterLog (restoreSnapshot snap s) = snap_masterLog snap"
  "newEntries (restoreSnapshot snap s) = snap_newEntries snap"
  "deletedEntryIds (restoreSnapshot snap s) = snap_deletedEntryIds snap"
  by (simp_all add: restoreSnapshot_def)

lemma currentSnapshot_fields [simp]:
  "snap_masterLog (currentSnapshot now s) = masterLog s"
  "snap_newEntries (currentSnapshot now s) = newEntries s"
  "snap_deletedEntryIds (currentSnapshot now s) = deletedEntryIds s"
  by (simp_all add: currentSnapshot_def)

lemma undoPop_masterLog [simp]: "masterLog (undoPop now s) = butlast (masterLog s)"
  by (simp add: undoPop_def Let_def)


lemma undo_without_history:
  assumes "undoStack s = []"
  shows "masterLog (undoLastEntry now s) = butlast (masterLog s)"
    and "newEntries (undoLastEntry now s) = newEntries s"
    and "deletedEntryIds (undoLastEntry now s) = deletedEntryIds s"
    and "undoStack (undoLastEntry now s) = []"
    and "redoStack (undoLastEntry now s) = redoStack s"
  using assms by (simp_all add: undoLastEntry_def)

lemma undo_nothing:
  "undoStack s = [] \<Longrightarrow> masterLog s = [] \<Longrightarrow>
     undoLastEntry now s = showToast ''Nothing to undo'' Warning s"
  by (simp add: undoLastEntry_def)






lemma finalizeEntry_fields [simp]:
  "config (finalizeEntry now s) = config s"
  "videoStartTime (finalizeEntry now s) = videoStartTime s"
  "spacePressed (finalizeEntry now s) = spacePressed s"
  "playbackSpeed (finalizeEntry now s) = playbackSpeed s"
  "entryCounter (finalizeEntry now s) = entryCounter s"
  "rewindStartTime (finalizeEntry now s) = rewindStartTime s"
  "mode (finalizeEntry now s) = mode s"
  "originalEntries (finalizeEntry now s) = originalEntries s"
  "deletedEntryIds (finalizeEntry now s) = deletedEntryIds s"
  "containerLeft (finalizeEntry now s) = containerLeft s"
  "containerTop (finalizeEntry now s) = containerTop s"
  "canvasReady (finalizeEntry now s) = canvasReady s"
  "lastClickPosition (finalizeEntry now s) = lastClickPosition s"
  "toasts (finalizeEntry now s) = toasts s"
  "seekedListeners (finalizeEntry now s) = seekedListeners s"
  "recapManagerLoaded (finalizeEntry now s) = recapManagerLoaded s"
  by (simp_all add: finalizeEntry_def Let_def split: option.splits)



lemma commitDraft_videoStartTime [simp]:
  "videoStartTime (commitDraft c s) = videoStartTime s"
  by (simp add: commitDraft_def)

lemma exampleSession_fields:
  "masterLog exampleSession = []" "undoStack exampleSession = []"
  "redoStack exampleSession = []" "currentEntry exampleSession = None"
  "videoStartTime exampleSession = None" "config exampleSession = Some exampleSteps"
  "newEntries exampleSession = []" "mode exampleSession = EntryMode"
  by (simp_all add: exampleSession_def createState_def)

lemma loadedSession_fields:
  "masterLog loadedSession = [exampleDraft\<lparr>ocr_timestamp := ''07:00:02''\<rparr>]"
  "undoStack loadedSession = []" "redoStack loadedSession = []"
  "currentEntry loadedSession = None"
  by (simp_all add: loadedSession_def exampleSession_fields)





text \<open>
  C8 as stated does not hold: with an empty undo stack and a log that is not empty (a
  restored session, or entries loaded for an audit), \<open>undoLastEntry\<close> takes its
  fallback and drops the last log entry.
\<close>

theorem undo_on_empty_stack_counterexample:
  "undoStack loadedSession = []
   \<and> masterLog (undoLastEntry 3000 loadedSession) \<noteq> masterLog loadedSession"
  by (simp add: undo_without_history loadedSession_fields)

text \<open>
  C8, amended. \<open>undoLastEntry\<close> with an empty undo stack and an empty log changes
  nothing and shows the warning \<open>Nothing to undo\<close>. With an empty undo stack and a
  log that is not empty it removes the last log entry and leaves the new entries, the
  deleted ids and both stacks as they are. \<open>finalizeEntry\<close> without an open draft
  returns the state unchanged, without a warning. Neither has a throwing branch.
\<close>

theorem undo_and_commit_without_target:
  "(undoStack s = [] \<and> masterLog s = [] \<longrightarrow>
      undoLastEntry now s = showToast ''Nothing to undo'' Warning s)
   \<and> (undoStack s = [] \<and> masterLog s \<noteq> [] \<longrightarrow>
        masterLog (undoLastEntry now s) = butlast (masterLog s)
        \<and> newEntries (undoLastEntry now s) = newEntries s
        \<and> deletedEntryIds (undoLastEntry now s) = deletedEntryIds s
        \<and> undoStack (undoLastEntry now s) = []
        \<and> redoStack (undoLastEntry now s) = redoStack s)
   \<and> (currentEntry s = None \<longrightarrow> finalizeEntry now s = s)"
  by (simp add: undo_nothing undo_without_history finalizeEntry_no_draft)

theorem undo_and_commit_without_target_witness:
  "undoLastEntry 3000 exampleSession = showToast ''Nothing to undo'' Warning exampleSession
   \<and> masterLog (undoLastEntry 3000 loadedSession) = []
   \<and> finalizeEntry 3000 exampleSession = exampleSession"
proof -
  have "undoLastEntry 3000 exampleSession = showToast ''Nothing to undo'' Warning exampleSession"
    using undo_and_commit_without_target [of exampleSession 3000]
    by (simp only: exampleSession_fields simp_thms)
  moreover have "masterLog (undoLastEntry 3000 loadedSession) = []"
    using undo_and_commit_without_target [of loadedSession 3000]
    by (simp add: loadedSession_fields)
  moreover have "finalizeEntry 3000 exampleSession = exampleSession"
    using undo_and_commit_without_target [of exampleSession 3000]
    by (simp only: exampleSession_fields simp_thms)
  ultimately show ?thesis by (simp only: simp_thms)
qed

subsection \<open>Recap start\<close>

lemma Max_insert_max:
  fixes a t :: real
  assumes "finite S"
  shows "Max (insert (max a t) S) = Max (insert a (insert t S))"
proof (cases "S = {}")
  case True
  then show ?thesis by (simp add: max.commute)
next
  case False
  then show ?thesis using assms by (simp add: max.assoc)
qed

lemma latest_fold_Some:
  "fold (\<lambda>e latest.
             case playback_time_seconds e of
               None \<Rightarrow> latest
             | Some entryT \<Rightarrow>
                 (case latest of
                    None \<Rightarrow> Some entryT
                  | Some latestT \<Rightarrow> if latestT < entryT then Some entryT else Some latestT))
          entries (Some a) = Some (Max (insert a (set (entryTimes entries))))"
proof (induction entries arbitrary: a)
  case Nil
  then show ?case by (simp add: entryTimes_def)
next
  case (Cons e es)
  show ?case
  proof (cases "playback_time_seconds e")
    case None
    then show ?thesis using Cons.IH [of a] by (simp add: entryTimes_def)
  next
    case (Some t)
    have et: "entryTimes (e # es) = t # entryTimes es"
      using Some by (simp add: entryTimes_def)
    have m: "(if a < t then t else a) = max a t" by (simp add: max_def)
    have "Max (insert (max a t) (set (entryTimes es)))
            = Max (insert a (insert t (set (entryTimes es))))"
      by (rule Max_insert_max) simp
    then show ?thesis
      using Some Cons.IH [of "max a t"] unfolding et by (simp add: m if_distrib [of Some, symmetric])
  qed
qed

lemma latestEntryTime_Max:
  "latestEntryTime entries =
     (if entryTimes entries = [] then None else Some (Max (set (entryTimes entries))))"
proof (induction entries)
  case Nil
  then show ?case by (simp add: latestEntryTime_def entryTimes_def)
next
  case (Cons e es)
  show ?case
  proof (cases "playback_time_seconds e")
    case None
    then show ?thesis using Cons.IH by (simp add: latestEntryTime_def entryTimes_def)
  next
    case (Some t)
    then have "latestEntryTime (e # es) = Some (Max (insert t (set (entryTimes es))))"
      by (simp add: latestEntryTime_def latest_fold_Some)
    moreover have "entryTimes (e # es) = t # entryTimes es"
      using Some by (simp add: entryTimes_def)
    ultimately show ?thesis by simp
  qed
qed

lemma latestEntryTime_is_maximum:
  assumes "latestEntryTime entries = Some m"
  shows "m \<in> set (entryTimes entries)" and "\<forall>t \<in> set (entryTimes entries). t \<le> m"
proof -
  from assms have ne: "entryTimes entries \<noteq> []" and m: "m = Max (set (entryTimes entries))"
    by (simp_all add: latestEntryTime_Max split: if_splits)
  from ne have "set (entryTimes entries) \<noteq> {}" by simp
  then show "m \<in> set (entryTimes entries)" unfolding m by (intro Max_in) simp_all
  show "\<forall>t \<in> set (entryTimes entries). t \<le> m" unfolding m by simp
qed

lemma entryTimes_member:
  "t \<in> set (entryTimes entries) \<longleftrightarrow> (\<exists>e \<in> set entries. playback_time_seconds e = Some t)"
proof
  assume "t \<in> set (entryTimes entries)"
  then obtain e where "e \<in> set entries" "playback_time_seconds e = Some t"
    by (auto simp: entryTimes_def split: option.splits)
  then show "\<exists>e \<in> set entries. playback_time_seconds e = Some t" by blast
next
  assume "\<exists>e \<in> set entries. playback_time_seconds e = Some t"
  then obtain e where "e \<in> set entries" "playback_time_seconds e = Some t" by blast
  then show "t \<in> set (entryTimes entries)"
    by (force simp: entryTimes_def)
qed

lemma startRecapWith_log:
  assumes "masterLog s \<noteq> []" and "latestEntryTime (masterLog s) = Some m" and "m \<noteq> 0"
  shows "startRecapWith r s =
           (seek_video (max 0 (currentTime (video s) - r))
              (s\<lparr>recapEndTime := Some m, recapCompleted := False\<rparr>))
           \<lparr>seekedListeners := seekedListeners s @ [EnterRewind]\<rparr>"
  using assms by (simp add: startRecapWith_def Let_def)

lemma startRecapWith_empty:
  assumes "masterLog s = []"
  shows "startRecapWith r s =
           (seek_video (max 0 (currentTime (video s) - r)) s)
           \<lparr>seekedListeners := seekedListeners s @ [PauseOnly]\<rparr>"
  using assms by (simp add: startRecapWith_def Let_def)

lemma startRecap_offset: "startRecap s = startRecapWith (rewindOffset s) s"
  by (simp add: startRecap_def rewindOffset_def)

lemma runSeekedListener_EnterRewind:
  assumes "recapEndTime s = Some m"
  shows "recapEndTime (runSeekedListener now EnterRewind s) = Some m"
    and "isRewinding (runSeekedListener now EnterRewind s)"
    and "video (runSeekedListener now EnterRewind s) = (video s)\<lparr>paused := True\<rparr>"
    and "recapCompleted (runSeekedListener now EnterRewind s) = recapCompleted s"
  using assms by (simp_all add: runSeekedListener_def Let_def pause_video_def)

lemma runSeekedListener_PauseOnly:
  "runSeekedListener now PauseOnly s = pause_video s"
  by (simp add: runSeekedListener_def)

text \<open>
  C2, amended. Let no other \<open>seeked\<close> listener be pending. When the log is not empty
  and its latest playback time is not zero, \<open>startRecap\<close> and the completed seek set
  the recap end time to the maximum playback time of the log, move playback to
  \<open>max 0 (currentTime - rewindOffset)\<close>, pause it and set \<open>isRewinding\<close>. When the
  log is empty, playback is moved to \<open>max 0 (currentTime - rewindOffset)\<close> and paused,
  and \<open>isRewinding\<close>, the recap end time and \<open>recapCompleted\<close> stay as they were.
\<close>

theorem startRecap_then_seeked:
  assumes "seekedListeners s = []"
  shows "(masterLog s \<noteq> [] \<and> latestEntryTime (masterLog s) = Some m \<and> m \<noteq> 0 \<longrightarrow>
            (let s' = seeked now (startRecap s)
             in recapEndTime s' = Some m
                \<and> m \<in> set (entryTimes (masterLog s))
                \<and> (\<forall>t \<in> set (entryTimes (masterLog s)). t \<le> m)
                \<and> currentTime (video s') = max 0 (currentTime (video s) - rewindOffset s)
                \<and> paused (video s') \<and> isRewinding s'))
       \<and> (masterLog s = [] \<longrightarrow>
            (let s' = seeked now (startRecap s)
             in currentTime (video s') = max 0 (currentTime (video s) - rewindOffset s)
                \<and> paused (video s')
                \<and> isRewinding s' = isRewinding s \<and> recapEndTime s' = recapEndTime s
                \<and> recapCompleted s' = recapCompleted s))"
proof (intro conjI impI)
  assume a: "masterLog s \<noteq> [] \<and> latestEntryTime (masterLog s) = Some m \<and> m \<noteq> 0"
  define s1 where "s1 = (seek_video (max 0 (currentTime (video s) - rewindOffset s))
              (s\<lparr>recapEndTime := Some m, recapCompleted := False\<rparr>))\<lparr>seekedListeners := []\<rparr>"
  have r: "recapEndTime s1 = Some m" by (simp add: s1_def)
  have "seeked now (startRecap s) = runSeekedListener now EnterRewind s1"
    using a assms by (simp add: startRecap_offset startRecapWith_log seeked_def s1_def)
  moreover have "video s1 = (video s)\<lparr>currentTime := max 0 (currentTime (video s) - rewindOffset s)\<rparr>"
    by (simp add: s1_def seek_video_def)
  ultimately have "recapEndTime (seeked now (startRecap s)) = Some m"
    "isRewinding (seeked now (startRecap s))"
    "currentTime (video (seeked now (startRecap s))) = max 0 (currentTime (video s) - rewindOffset s)"
    "paused (video (seeked now (startRecap s)))"
    using runSeekedListener_EnterRewind [OF r, of now] by simp_all
  moreover have "m \<in> set (entryTimes (masterLog s))"
    "\<forall>t \<in> set (entryTimes (masterLog s)). t \<le> m"
    using a latestEntryTime_is_maximum [of "masterLog s" m] by simp_all
  ultimately show "let s' = seeked now (startRecap s)
             in recapEndTime s' = Some m
                \<and> m \<in> set (entryTimes (masterLog s))
                \<and> (\<forall>t \<in> set (entryTimes (masterLog s)). t \<le> m)
                \<and> currentTime (video s') = max 0 (currentTime (video s) - rewindOffset s)
                \<and> paused (video s') \<and> isRewinding s'"
    by (simp only: Let_def simp_thms)
next
  assume e: "masterLog s = []"
  have "seeked now (startRecap s)
          = pause_video ((seek_video (max 0 (currentTime (video s) - rewindOffset s)) s)
                           \<lparr>seekedListeners := []\<rparr>)"
    using e assms
    by (simp add: startRecap_offset startRecapWith_empty seeked_def runSeekedListener_PauseOnly)
  then show "let s' = seeked now (startRecap s)
             in currentTime (video s') = max 0 (currentTime (video s) - rewindOffset s)
                \<and> paused (video s')
                \<and> isRewinding s' = isRewinding s \<and> recapEndTime s' = recapEndTime s
                \<and> recapCompleted s' = recapCompleted s"
    by (simp add: Let_def pause_video_def seek_video_def)
qed

lemma reviewSession_fields:
  "masterLog reviewSession = [entryAt ''entry_1_0'' 5, entryAt ''entry_2_1'' 30]"
  "seekedListeners reviewSession = []" "currentTime (video reviewSession) = 40"
  "rewindOffset reviewSession = 60" "seekedListeners exampleSession = []"
  "currentTime (video exampleSession) = 20" "rewindOffset exampleSession = 10"
  "isRewinding exampleSession = False" "recapEndTime exampleSession = None"
  by (simp_all add: reviewSession_def exampleSession_def createState_def rewindOffset_def)

lemma reviewSession_latest: "latestEntryTime (masterLog reviewSession) = Some 30"
  by (simp add: reviewSession_fields latestEntryTime_def entryAt_def)

text \<open>
  The third scenario (recap at 40 s, entries at 5 s and 30 s, 60-second rewind) ends
  at 30 s and seeks to 0; on the empty log of the second scenario a recap at 20 s with
  the 10-second rewind seeks to 10 s and pauses.
\<close>

theorem startRecap_then_seeked_witness:
  "recapEndTime (seeked 100 (startRecap reviewSession)) = Some 30
   \<and> currentTime (video (seeked 100 (startRecap reviewSession))) = 0
   \<and> isRewinding (seeked 100 (startRecap reviewSession))
   \<and> currentTime (video (seeked 100 (startRecap exampleSession))) = 10
   \<and> paused (video (seeked 100 (startRecap exampleSession)))"
proof -
  have "masterLog reviewSession \<noteq> []"
    by (simp add: reviewSession_fields)
  then have "masterLog reviewSession \<noteq> [] \<and> latestEntryTime (masterLog reviewSession) = Some 30
      \<and> (30::real) \<noteq> 0"
    using reviewSession_latest by (simp only: simp_thms)
  then have "recapEndTime (seeked 100 (startRecap reviewSession)) = Some 30
     \<and> currentTime (video (seeked 100 (startRecap reviewSession))) = max 0 (40 - 60)
     \<and> isRewinding (seeked 100 (startRecap reviewSession))"
    using startRecap_then_seeked [of reviewSession 30 100]
    by (simp add: Let_def reviewSession_fields(2-4))
  moreover have "currentTime (video (seeked 100 (startRecap exampleSession))) = max 0 (20 - 10)
     \<and> paused (video (seeked 100 (startRecap exampleSession)))"
    using startRecap_then_seeked [of exampleSession 0 100]
    by (simp add: Let_def reviewSession_fields exampleSession_fields)
  ultimately show ?thesis by simp
qed

text \<open>
  C2 as stated does not hold. On an empty log the recap never sets \<open>isRewinding\<close>.
  (On a log whose latest playback time is zero \<open>startRecap\<close> does nothing at all,
  because it tests \<open>!latestEntry\<close>.)
\<close>

theorem startRecap_empty_log_counterexample:
  "masterLog exampleSession = []
   \<and> \<not> isRewinding (seeked 100 (startRecap exampleSession))
   \<and> masterLog (exampleSession\<lparr>masterLog := [entryAt ''entry_1_0'' 0]\<rparr>) \<noteq> []
   \<and> startRecap (exampleSession\<lparr>masterLog := [entryAt ''entry_1_0'' 0]\<rparr>)
       = exampleSession\<lparr>masterLog := [entryAt ''entry_1_0'' 0]\<rparr>"
proof -
  have "seeked 100 (startRecap exampleSession)
          = pause_video ((seek_video (max 0 (currentTime (video exampleSession) - rewindOffset exampleSession))
                exampleSession)\<lparr>seekedListeners := []\<rparr>)"
    by (simp add: startRecap_offset startRecapWith_empty seeked_def runSeekedListener_PauseOnly
          exampleSession_fields reviewSession_fields)
  then have "\<not> isRewinding (seeked 100 (startRecap exampleSession))"
    by (simp add: reviewSession_fields)
  moreover have "startRecap (exampleSession\<lparr>masterLog := [entryAt ''entry_1_0'' 0]\<rparr>)
       = exampleSession\<lparr>masterLog := [entryAt ''entry_1_0'' 0]\<rparr>"
    by (simp add: startRecap_def startRecapWith_def latestEntryTime_def entryAt_def)
  ultimately show ?thesis by (simp add: exampleSession_fields)
qed

subsection \<open>Recap window during review\<close>

lemma clearUndoDots_fields [simp]:
  "config (clearUndoDots now s) = config s"
  "videoStartTime (clearUndoDots now s) = videoStartTime s"
  "masterLog (clearUndoDots now s) = masterLog s"
  "currentEntry (clearUndoDots now s) = currentEntry s"
  "currentStepIndex (clearUndoDots now s) = currentStepIndex s"
  "spacePressed (clearUndoDots now s) = spacePressed s"
  "playbackSpeed (clearUndoDots now s) = playbackSpeed s"
  "entryCounter (clearUndoDots now s) = entryCounter s"
  "isRewinding (clearUndoDots now s) = isRewinding s"
  "rewindStartTime (clearUndoDots now s) = rewindStartTime s"
  "recapEndTime (clearUndoDots now s) = recapEndTime s"
  "recapCompleted (clearUndoDots now s) = recapCompleted s"
  "mode (clearUndoDots now s) = mode s"
  "originalEntries (clearUndoDots now s) = originalEntries s"
  "deletedEntryIds (clearUndoDots now s) = deletedEntryIds s"
  "newEntries (clearUndoDots now s) = newEntries s"
  "undoStack (clearUndoDots now s) = undoStack s"
  "redoStack (clearUndoDots now s) = redoStack s"
  "video (clearUndoDots now s) = video s"
  "containerLeft (clearUndoDots now s) = containerLeft s"
  "containerTop (clearUndoDots now s) = containerTop s"
  "canvasReady (clearUndoDots now s) = canvasReady s"
  "modalActive (clearUndoDots now s) = modalActive s"
  "lastClickPosition (clearUndoDots now s) = lastClickPosition s"
  "toasts (clearUndoDots now s) = toasts s"
  "seekedListeners (clearUndoDots now s) = seekedListeners s"
  "recapManagerLoaded (clearUndoDots now s) = recapManagerLoaded s"
  by (simp_all add: clearUndoDots_def Let_def)

lemma openDraft_fields [simp]:
  "config (openDraft now ev x y s) = config s"
  "videoStartTime (openDraft now ev x y s) = videoStartTime s"
  "masterLog (openDraft now ev x y s) = masterLog s"
  "currentStepIndex (openDraft now ev x y s) = currentStepIndex s"
  "spacePressed (openDraft now ev x y s) = spacePressed s"
  "playbackSpeed (openDraft now ev x y s) = playbackSpeed s"
  "isRewinding (openDraft now ev x y s) = isRewinding s"
  "rewindStartTime (openDraft now ev x y s) = rewindStartTime s"
  "recapEndTime (openDraft now ev x y s) = recapEndTime s"
  "recapCompleted (openDraft now ev x y s) = recapCompleted s"
  "mode (openDraft now ev x y s) = mode s"
  "originalEntries (openDraft now ev x y s) = originalEntries s"
  "deletedEntryIds (openDraft now ev x y s) = deletedEntryIds s"
  "newEntries (openDraft now ev x y s) = newEntries s"
  "undoStack (openDraft now ev x y s) = undoStack s"
  "redoStack (openDraft now ev x y s) = redoStack s"
  "video (openDraft now ev x y s) = video s"
  "containerLeft (openDraft now ev x y s) = containerLeft s"
  "containerTop (openDraft now ev x y s) = containerTop s"
  "canvasReady (openDraft now ev x y s) = canvasReady s"
  "modalActive (openDraft now ev x y s) = modalActive s"
  "toasts (openDraft now ev x y s) = toasts s"
  "seekedListeners (openDraft now ev x y s) = seekedListeners s"
  "recapManagerLoaded (openDraft now ev x y s) = recapManagerLoaded s"
  by (simp_all add: openDraft_def Let_def)

lemma cancelCurrentEntry_fields [simp]:
  "config (cancelCurrentEntry now s) = config s"
  "videoStartTime (cancelCurrentEntry now s) = videoStartTime s"
  "masterLog (cancelCurrentEntry now s) = masterLog s"
  "spacePressed (cancelCurrentEntry now s) = spacePressed s"
  "playbackSpeed (cancelCurrentEntry now s) = playbackSpeed s"
  "entryCounter (cancelCurrentEntry now s) = entryCounter s"
  "isRewinding (cancelCurrentEntry now s) = isRewinding s"
  "rewindStartTime (cancelCurrentEntry now s) = rewindStartTime s"
  "recapEndTime (cancelCurrentEntry now s) = recapEndTime s"
  "recapCompleted (cancelCurrentEntry now s) = recapCompleted s"
  "mode (cancelCurrentEntry now s) = mode s"
  "originalEntries (cancelCurrentEntry now s) = originalEntries s"
  "deletedEntryIds (cancelCurrentEntry now s) = deletedEntryIds s"
  "newEntries (cancelCurrentEntry now s) = newEntries s"
  "undoStack (cancelCurrentEntry now s) = undoStack s"
  "redoStack (cancelCurrentEntry now s) = redoStack s"
  "containerLeft (cancelCurrentEntry now s) = containerLeft s"
  "containerTop (cancelCurrentEntry now s) = containerTop s"
  "canvasReady (cancelCurrentEntry now s) = canvasReady s"
  "lastClickPosition (cancelCurrentEntry now s) = lastClickPosition s"
  "toasts (cancelCurrentEntry now s) = toasts s"
  "seekedListeners (cancelCurrentEntry now s) = seekedListeners s"
  "recapManagerLoaded (cancelCurrentEntry now s) = recapManagerLoaded s"
  by (simp_all add: cancelCurrentEntry_def Let_def split: option.splits)

lemma completeRecap_fields [simp]:
  "config (completeRecap s) = config s"
  "videoStartTime (completeRecap s) = videoStartTime s"
  "masterLog (completeRecap s) = masterLog s"
  "currentEntry (completeRecap s) = currentEntry s"
  "currentStepIndex (completeRecap s) = currentStepIndex s"
  "spacePressed (completeRecap s) = spacePressed s"
  "playbackSpeed (completeRecap s) = playbackSpeed s"
  "entryCounter (completeRecap s) = entryCounter s"
  "rewindStartTime (completeRecap s) = rewindStartTime s"
  "mode (completeRecap s) = mode s"
  "originalEntries (completeRecap s) = originalEntries s"
  "deletedEntryIds (completeRecap s) = deletedEntryIds s"
  "newEntries (completeRecap s) = newEntries s"
  "undoStack (completeRecap s) = undoStack s"
  "redoStack (completeRecap s) = redoStack s"
  "video (completeRecap s) = video s"
  "containerLeft (completeRecap s) = containerLeft s"
  "containerTop (completeRecap s) = containerTop s"
  "canvasReady (completeRecap s) = canvasReady s"
  "modalActive (completeRecap s) = modalActive s"
  "lastClickPosition (completeRecap s) = lastClickPosition s"
  "toasts (completeRecap s) = toasts s"
  "seekedListeners (completeRecap s) = seekedListeners s"
  "recapManagerLoaded (completeRecap s) = recapManagerLoaded s"
  by (simp_all add: completeRecap_def)

lemma windowKept_refl: "windowKept s s"
  by (simp add: windowKept_def split: option.splits)

lemma entryTimes_mono:
  "set xs \<subseteq> set ys \<Longrightarrow> set (entryTimes xs) \<subseteq> set (entryTimes ys)"
  unfolding subset_iff entryTimes_member by blast

lemma windowKept_trans:
  assumes ab: "windowKept a b" and bc: "windowKept b c"
  shows "windowKept a c"
proof -
  have sub: "set (masterLog a) \<subseteq> set (masterLog c)"
    using ab bc by (auto simp: windowKept_def)
  show ?thesis
  proof (cases "activeWindow c")
    case None
    with sub show ?thesis by (simp add: windowKept_def)
  next
    case (Some e'')
    with bc obtain e' where b: "activeWindow b = Some e'"
      and s2: "e'' = e' \<or> (e' < e'' \<and> e'' \<in> set (entryTimes (masterLog c)))"
      by (auto simp: windowKept_def split: option.splits)
    with ab obtain e where a: "activeWindow a = Some e"
      and s1: "e' = e \<or> (e < e' \<and> e' \<in> set (entryTimes (masterLog b)))"
      by (auto simp: windowKept_def split: option.splits)
    have "set (entryTimes (masterLog b)) \<subseteq> set (entryTimes (masterLog c))"
      using bc by (intro entryTimes_mono) (simp add: windowKept_def)
    with s1 s2 have "e'' = e \<or> (e < e'' \<and> e'' \<in> set (entryTimes (masterLog c)))"
      by auto
    with sub Some a show ?thesis by (simp add: windowKept_def)
  qed
qed

lemma windowKept_same:
  assumes "set (masterLog s) \<subseteq> set (masterLog s')" and "activeWindow s' = activeWindow s"
  shows "windowKept s s'"
  using assms by (simp add: windowKept_def split: option.splits)

lemma windowKept_closed:
  assumes "set (masterLog s) \<subseteq> set (masterLog s')" and "activeWindow s' = None"
  shows "windowKept s s'"
  using assms by (simp add: windowKept_def)

lemma activeWindow_cong:
  "isRewinding s' = isRewinding s \<Longrightarrow> recapEndTime s' = recapEndTime s \<Longrightarrow>
     activeWindow s' = activeWindow s"
  by (simp add: activeWindow_def)

lemma windowKept_extendRecapForEntry:
  assumes "entryCopy \<in> set (masterLog s)"
  shows "windowKept s (extendRecapForEntry entryCopy s)"
proof (cases "recapEndTime s")
  case None
  then show ?thesis
    by (simp add: extendRecapForEntry_def windowKept_refl)
next
  case r: (Some r)
  show ?thesis
  proof (cases "playback_time_seconds entryCopy")
    case None
    with r show ?thesis by (simp add: extendRecapForEntry_def windowKept_refl)
  next
    case (Some p)
    show ?thesis
    proof (cases "isRewinding s \<and> r < p")
      case False
      with r Some show ?thesis by (auto simp: extendRecapForEntry_def windowKept_refl)
    next
      case True
      have "p \<in> set (entryTimes (masterLog s))"
        using assms Some by (auto simp: entryTimes_member)
      with True r Some show ?thesis
        by (simp add: extendRecapForEntry_def windowKept_def activeWindow_def)
    qed
  qed
qed

lemma windowKept_resumeAfterCommit: "windowKept s (resumeAfterCommit s)"
proof -
  have "activeWindow (resumeAfterCommit s) = activeWindow s
        \<or> activeWindow (resumeAfterCommit s) = None"
    by (simp add: resumeAfterCommit_def activeWindow_def play_video_def pause_video_def Let_def
          split: option.splits)
  then show ?thesis
    using windowKept_same [of s "resumeAfterCommit s"] windowKept_closed [of s "resumeAfterCommit s"]
    by auto
qed

lemma windowKept_finalizeEntry: "windowKept s (finalizeEntry now s)"
proof (cases "currentEntry s")
  case None
  then show ?thesis by (simp add: finalizeEntry_no_draft windowKept_refl)
next
  case (Some ce)
  define ec where "ec = ce\<lparr>ocr_timestamp := calculateTimestamp s ce\<rparr>"
  define s1 where "s1 = recordEntry now ec s"
  define s2 where "s2 = extendRecapForEntry ec s1"
  define s3 where "s3 = markDotFinalized now (entryId ce) (resetDraft s2)"
  define s4 where "s4 = resumeAfterCommit s3"
  have f: "finalizeEntry now s = drawRedDots now s4"
    using Some by (simp add: finalizeEntry_def Let_def s4_def s3_def s2_def s1_def ec_def)
  have k1: "windowKept s s1"
    by (rule windowKept_same) (auto simp: s1_def activeWindow_def)
  have "ec \<in> set (masterLog s1)" by (simp add: s1_def)
  then have k2: "windowKept s1 s2" unfolding s2_def by (rule windowKept_extendRecapForEntry)
  have k3: "windowKept s2 s3"
    by (rule windowKept_same) (simp_all add: s3_def activeWindow_def)
  have k4: "windowKept s3 s4" unfolding s4_def by (rule windowKept_resumeAfterCommit)
  have k5: "windowKept s4 (drawRedDots now s4)"
    by (rule windowKept_same) (simp_all add: activeWindow_def)
  show ?thesis unfolding f
    using k1 k2 k3 k4 k5 by (blast intro: windowKept_trans)
qed


lemma latestEntryTime_member:
  "latestEntryTime entries = Some m \<Longrightarrow> m \<in> set (entryTimes entries)"
  by (rule latestEntryTime_is_maximum)

lemma windowKept_checkRecapProgress: "windowKept s (snd (checkRecapProgress curTime s))"
proof (cases "activeWindow s")
  case None
  then show ?thesis
    by (auto simp: checkRecapProgress_def activeWindow_def windowKept_refl Let_def
          split: option.splits if_splits)
next
  case (Some r)
  then have a: "isRewinding s" "recapEndTime s = Some r"
    by (simp_all add: activeWindow_def split: if_splits)
  show ?thesis
  proof (cases "latestEntryTime (masterLog s)")
    case None
    with a show ?thesis
      by (simp add: checkRecapProgress_def Let_def windowKept_def activeWindow_def)
  next
    case l: (Some l)
    then have "l \<in> set (entryTimes (masterLog s))" by (rule latestEntryTime_member)
    with a l show ?thesis
      by (simp add: checkRecapProgress_def Let_def windowKept_def activeWindow_def)
  qed
qed

lemma checkRecapProgress_masterLog:
  "masterLog (snd (checkRecapProgress curTime s)) = masterLog s"
  by (simp add: checkRecapProgress_def Let_def split: option.splits)

lemma windowKept_completed:
  "windowKept s (drawRedDots now (completeRecap (pause_video s)))"
  by (rule windowKept_closed) (simp_all add: activeWindow_def completeRecap_def)

lemma latestEntryInline_member:
  "fold (\<lambda>e latest.
             case playback_time_seconds e of
               None \<Rightarrow> latest
             | Some entryT \<Rightarrow>
                 (case latest of
                    None \<Rightarrow> Some e
                  | Some l \<Rightarrow>
                      (case playback_time_seconds l of
                         None \<Rightarrow> latest
                       | Some latestT \<Rightarrow>
                           if latestT \<noteq> 0 \<and> latestT < entryT then Some e else latest)))
          entries acc = Some x \<Longrightarrow> x \<in> set entries \<or> acc = Some x"
proof (induction entries arbitrary: acc)
  case Nil
  then show ?case by simp
next
  case (Cons e es)
  from Cons.prems Cons.IH show ?case
    by (fastforce split: option.splits if_splits)
qed

lemma windowKept_timeupdateRecap: "windowKept s (timeupdateRecap now s)"
proof (cases "activeWindow s")
  case None
  then have "timeupdateRecap now s = s"
    by (auto simp: timeupdateRecap_def activeWindow_def split: option.splits if_splits)
  then show ?thesis by (simp add: windowKept_refl)
next
  case (Some r)
  then have a: "isRewinding s" "recapEndTime s = Some r"
    by (simp_all add: activeWindow_def split: if_splits)
  show ?thesis
  proof (cases "recapManagerLoaded s")
    case True
    obtain b s1 where c: "checkRecapProgress (currentTime (video s)) s = (b, s1)"
      by (cases "checkRecapProgress (currentTime (video s)) s")
    have k1: "windowKept s s1"
      using windowKept_checkRecapProgress [of s "currentTime (video s)"] c by simp
    have "timeupdateRecap now s
            = (if b then drawRedDots now (completeRecap (pause_video s1)) else s1)"
      using a True c by (simp add: timeupdateRecap_def Let_def)
    then show ?thesis
      using k1 windowKept_completed [of s1 now] by (auto intro: windowKept_trans)
  next
    case False
    show ?thesis
    proof (cases "case latestEntryInline (masterLog s) of None \<Rightarrow> None
                   | Some l \<Rightarrow> playback_time_seconds l")
      case None
      with a False show ?thesis
        by (simp add: timeupdateRecap_def Let_def windowKept_refl)
    next
      case (Some latestT)
      then obtain l where l: "latestEntryInline (masterLog s) = Some l"
        "playback_time_seconds l = Some latestT"
        by (auto split: option.splits)
      then have "l \<in> set (masterLog s)"
        using latestEntryInline_member [of "masterLog s" None l]
        by (simp add: latestEntryInline_def)
      with l have mem: "latestT \<in> set (entryTimes (masterLog s))"
        by (auto simp: entryTimes_member)
      define s1 where "s1 = s\<lparr>recapEndTime := Some (if r < latestT then latestT else r)\<rparr>"
      have k1: "windowKept s s1"
        using a mem by (simp add: s1_def windowKept_def activeWindow_def)
      have "timeupdateRecap now s = s \<or> timeupdateRecap now s = s1
            \<or> timeupdateRecap now s = drawRedDots now (completeRecap (pause_video s1))"
        using a False Some by (simp add: timeupdateRecap_def Let_def s1_def)
      then show ?thesis
        using k1 windowKept_completed [of s1 now] windowKept_refl [of s]
        by (auto intro: windowKept_trans)
    qed
  qed
qed

lemma windowKept_timeupdateLegacy: "windowKept s (timeupdateLegacy now s)"
proof -
  have "timeupdateLegacy now s = s
        \<or> (activeWindow (timeupdateLegacy now s) = None
            \<and> masterLog (timeupdateLegacy now s) = masterLog s)"
    by (simp add: timeupdateLegacy_def activeWindow_def split: option.splits)
  then show ?thesis
    using windowKept_refl [of s] windowKept_closed [of s "timeupdateLegacy now s"] by auto
qed

lemma windowKept_timeupdate: "windowKept s (timeupdate now s)"
proof -
  have "windowKept s (drawRedDots now s)"
    by (rule windowKept_same) (simp_all add: activeWindow_def)
  then show ?thesis
    unfolding timeupdate_def
    using windowKept_timeupdateRecap windowKept_timeupdateLegacy
    by (blast intro: windowKept_trans)
qed

lemma windowKept_showChoiceModal: "windowKept s (showChoiceModal now s)"
proof -
  have "showChoiceModal now s = finalizeEntry now s
        \<or> (\<exists>i. showChoiceModal now s = s\<lparr>currentStepIndex := i, modalActive := True\<rparr>)"
    by (auto simp: showChoiceModal_def split: option.splits)
  then show ?thesis
    using windowKept_finalizeEntry [of s now]
    by (auto intro: windowKept_same simp: activeWindow_def)
qed

lemma windowKept_handleChoiceSelection:
  "windowKept s (handleChoiceSelection now val stepId s)"
proof (cases "currentEntry s")
  case None
  then show ?thesis by (simp add: handleChoiceSelection_def windowKept_refl)
next
  case (Some ce)
  define s1 where
    "s1 = s\<lparr>currentEntry := Some (ce\<lparr>stepValues := AList.update stepId val (stepValues ce)\<rparr>)\<rparr>"
  have k1: "windowKept s s1"
    by (rule windowKept_same) (simp_all add: s1_def activeWindow_def)
  have "handleChoiceSelection now val stepId s = finalizeEntry now s1
        \<or> (\<exists>i. handleChoiceSelection now val stepId s
                 = showChoiceModal now (s1\<lparr>currentStepIndex := i\<rparr>))"
    using Some by (auto simp: handleChoiceSelection_def Let_def s1_def split: option.splits)
  moreover have "\<And>i. windowKept s1 (s1\<lparr>currentStepIndex := i\<rparr>)"
    by (rule windowKept_same) (simp_all add: activeWindow_def)
  ultimately show ?thesis
    using k1 windowKept_finalizeEntry [of s1 now] windowKept_showChoiceModal
    by (metis windowKept_trans)
qed

lemma windowKept_answer: "windowKept s (answer now val s)"
  by (auto simp: answer_def windowKept_refl windowKept_handleChoiceSelection split: option.splits)

lemma windowKept_cancelCurrentEntry: "windowKept s (cancelCurrentEntry now s)"
  by (rule windowKept_same) (simp_all add: activeWindow_def)

lemma goBackToPreviousStep_cases:
  "goBackToPreviousStep now s = Inr s' \<Longrightarrow>
     s' = s \<or> s' = cancelCurrentEntry now s
     \<or> (\<exists>ce i. s' = showChoiceModal now (s\<lparr>currentEntry := Some ce, currentStepIndex := i\<rparr>))"
  by (auto simp: goBackToPreviousStep_def Let_def split: option.splits if_splits sum.splits)

lemma windowKept_goBack:
  "goBackToPreviousStep now s = Inr s' \<Longrightarrow> windowKept s s'"
proof -
  assume "goBackToPreviousStep now s = Inr s'"
  then consider "s' = s" | "s' = cancelCurrentEntry now s"
    | ce i where "s' = showChoiceModal now (s\<lparr>currentEntry := Some ce, currentStepIndex := i\<rparr>)"
    using goBackToPreviousStep_cases by blast
  then show ?thesis
  proof cases
    case 1 then show ?thesis by (simp add: windowKept_refl)
  next
    case 2 then show ?thesis by (simp add: windowKept_cancelCurrentEntry)
  next
    case 3
    have "windowKept s (s\<lparr>currentEntry := Some ce, currentStepIndex := i\<rparr>)"
      by (rule windowKept_same) (simp_all add: activeWindow_def)
    with 3 show ?thesis
      using windowKept_showChoiceModal by (metis windowKept_trans)
  qed
qed

lemma handleVideoClick_cases:
  "handleVideoClick now ev s = s
   \<or> handleVideoClick now ev s = pause_video (clearUndoDots now s)
   \<or> (\<exists>x y. handleVideoClick now ev s
              = showChoiceModal now
                  (drawRedDots now (openDraft now ev x y (pause_video (clearUndoDots now s)))))"
  by (auto simp: handleVideoClick_def Let_def)

lemma windowKept_handleVideoClick: "windowKept s (handleVideoClick now ev s)"
proof -
  have k1: "windowKept s (pause_video (clearUndoDots now s))"
    by (rule windowKept_same) (simp_all add: activeWindow_def)
  have k2: "\<And>x y. windowKept (pause_video (clearUndoDots now s))
      (drawRedDots now (openDraft now ev x y (pause_video (clearUndoDots now s))))"
    by (rule windowKept_same) (simp_all add: activeWindow_def)
  from handleVideoClick_cases [of now ev s] show ?thesis
    using k1 k2 windowKept_refl [of s] windowKept_showChoiceModal
    by (metis windowKept_trans)
qed

lemma windowKept_apply_event: "windowKept s (apply_event ev s)"
proof (cases ev)
  case (Tick t now)
  have "windowKept s (seek_video t s)"
    by (rule windowKept_same) (simp_all add: activeWindow_def)
  with Tick show ?thesis
    using windowKept_timeupdate by (auto intro: windowKept_trans)
next
  case (GoBack now)
  then show ?thesis
    by (auto simp: windowKept_refl windowKept_goBack split: sum.splits)
qed (simp_all add: windowKept_handleVideoClick windowKept_answer windowKept_cancelCurrentEntry
       windowKept_finalizeEntry)

lemma windowKept_run_events: "windowKept s (run_events evs s)"
proof (induction evs arbitrary: s)
  case Nil
  show ?case by (simp add: run_events_def windowKept_refl)
next
  case (Cons ev evs)
  have "windowKept s (apply_event ev s)" by (rule windowKept_apply_event)
  moreover have "windowKept (apply_event ev s) (run_events evs (apply_event ev s))"
    by (rule Cons.IH)
  ultimately show ?case
    by (simp add: run_events_def windowKept_trans)
qed

lemma finalizeEntry_extends_recap:
  assumes "currentEntry s = Some ce" and "playback_time_seconds ce = Some p"
    and "isRewinding s" and "recapEndTime s = Some r" and "r < p"
    and "currentTime (video s) < p - 0.5"
  shows "recapEndTime (finalizeEntry now s) = Some p" and "isRewinding (finalizeEntry now s)"
proof -
  define ec where "ec = ce\<lparr>ocr_timestamp := calculateTimestamp s ce\<rparr>"
  define s2 where "s2 = extendRecapForEntry ec (recordEntry now ec s)"
  define s3 where "s3 = markDotFinalized now (entryId ce) (resetDraft s2)"
  have f: "finalizeEntry now s = drawRedDots now (resumeAfterCommit s3)"
    using assms(1) by (simp add: finalizeEntry_def Let_def s3_def s2_def ec_def)
  have "recapEndTime s2 = Some p" "isRewinding s2" "video s2 = video s"
    using assms by (simp_all add: s2_def extendRecapForEntry_def ec_def)
  then have "recapEndTime s3 = Some p" "isRewinding s3" "currentTime (video s3) < p - 0.5"
    using assms(6) by (simp_all add: s3_def)
  then have "recapEndTime (resumeAfterCommit s3) = Some p \<and> isRewinding (resumeAfterCommit s3)"
    by (simp add: resumeAfterCommit_def Let_def play_video_def)
  then show "recapEndTime (finalizeEntry now s) = Some p" "isRewinding (finalizeEntry now s)"
    unfolding f by simp_all
qed

lemma timeupdate_inside_window:
  assumes "isRewinding s" and "recapEndTime s = Some r" and "recapManagerLoaded s"
    and "rewindStartTime s = None"
    and "latestEntryTime (masterLog s) = Some l" and "l \<le> r"
    and "currentTime (video s) < r - 0.5"
  shows "timeupdate now s = drawRedDots now s"
proof -
  define s0 where "s0 = drawRedDots now s"
  have c: "checkRecapProgress (currentTime (video s0)) s0 = (False, s0)"
    using assms by (simp add: checkRecapProgress_def Let_def s0_def)
  have "timeupdateRecap now s0 = s0"
    using assms c by (simp add: timeupdateRecap_def Let_def s0_def)
  moreover have "timeupdateLegacy now s0 = s0"
    using assms by (simp add: timeupdateLegacy_def s0_def)
  ultimately show ?thesis by (simp add: timeupdate_def s0_def)
qed

text \<open>
  C3. Over any run of ticks, video clicks, answers, back steps, cancellations and
  commits: if a recap window is active after the run, it was active before it, its end
  time before the run is at most its end time after the run, and the end time after the
  run is the one before it or the playback time of an entry of the log.
\<close>

theorem recap_end_monotone:
  assumes "isRewinding (run_events evs s)" and "recapEndTime (run_events evs s) = Some e'"
  shows "\<exists>e. isRewinding s \<and> recapEndTime s = Some e \<and> e \<le> e'
             \<and> (e' = e \<or> (\<exists>x \<in> set (masterLog (run_events evs s)).
                                playback_time_seconds x = Some e'))"
proof -
  have k: "windowKept s (run_events evs s)" by (rule windowKept_run_events)
  have a': "activeWindow (run_events evs s) = Some e'"
    using assms by (simp add: activeWindow_def)
  with k obtain e where a: "activeWindow s = Some e"
    and st: "e' = e \<or> (e < e' \<and> e' \<in> set (entryTimes (masterLog (run_events evs s))))"
    by (auto simp: windowKept_def split: option.splits)
  from a have "isRewinding s \<and> recapEndTime s = Some e"
    by (simp add: activeWindow_def split: if_splits)
  moreover from st have "e \<le> e'" by auto
  moreover from st have "e' = e \<or> (\<exists>x \<in> set (masterLog (run_events evs s)).
                                playback_time_seconds x = Some e')"
    by (auto simp: entryTimes_member)
  ultimately show ?thesis by blast
qed

lemma rewindingSession_fields:
  "isRewinding rewindingSession" "recapEndTime rewindingSession = Some 30"
  "recapManagerLoaded rewindingSession" "rewindStartTime rewindingSession = None"
  "masterLog rewindingSession = [entryAt ''entry_1_0'' 5, entryAt ''entry_2_1'' 30]"
  "currentEntry rewindingSession = Some (entryAt ''entry_3_2'' 35)"
  "currentTime (video rewindingSession) = 10"
  by (simp_all add: rewindingSession_def reviewSession_def exampleSession_def createState_def)

lemma rewindingSession_run:
  "recapEndTime (run_events [Tick 11 5000, Commit 6000] rewindingSession) = Some 35"
  "isRewinding (run_events [Tick 11 5000, Commit 6000] rewindingSession)"
proof -
  define s1 where "s1 = seek_video 11 rewindingSession"
  have f: "isRewinding s1" "recapEndTime s1 = Some 30" "recapManagerLoaded s1"
    "rewindStartTime s1 = None" "latestEntryTime (masterLog s1) = Some 30"
    "currentTime (video s1) = 11" "currentEntry s1 = Some (entryAt ''entry_3_2'' 35)"
    by (simp_all add: s1_def rewindingSession_fields latestEntryTime_def entryAt_def
          seek_video_def)
  have t: "timeupdate 5000 s1 = drawRedDots 5000 s1"
    by (rule timeupdate_inside_window [where r = 30 and l = 30]) (simp_all add: f)
  have r: "run_events [Tick 11 5000, Commit 6000] rewindingSession
             = finalizeEntry 6000 (drawRedDots 5000 s1)"
    by (simp add: run_events_def t [unfolded s1_def] s1_def)
  have p: "playback_time_seconds (entryAt ''entry_3_2'' 35) = Some 35"
    by (simp add: entryAt_def)
  show "recapEndTime (run_events [Tick 11 5000, Commit 6000] rewindingSession) = Some 35"
    unfolding r
    by (rule finalizeEntry_extends_recap(1) [where r = 30 and ce = "entryAt ''entry_3_2'' 35"])
       (simp_all add: f p)
  show "isRewinding (run_events [Tick 11 5000, Commit 6000] rewindingSession)"
    unfolding r
    by (rule finalizeEntry_extends_recap(2) [where r = 30 and p = 35
            and ce = "entryAt ''entry_3_2'' 35"])
       (simp_all add: f p)
qed

text \<open>
  In the third scenario an entry committed at 35 s during the review moves the end of
  the recap from 30 s to 35 s.
\<close>

theorem recap_end_monotone_witness:
  "isRewinding (run_events [Tick 11 5000, Commit 6000] rewindingSession)
   \<and> recapEndTime (run_events [Tick 11 5000, Commit 6000] rewindingSession) = Some 35
   \<and> recapEndTime rewindingSession = Some 30
   \<and> (\<exists>x \<in> set (masterLog (run_events [Tick 11 5000, Commit 6000] rewindingSession)).
         playback_time_seconds x = Some 35)"
proof -
  from recap_end_monotone [OF rewindingSession_run(2) rewindingSession_run(1)]
  obtain e where "recapEndTime rewindingSession = Some e"
    and "35 = e \<or> (\<exists>x \<in> set (masterLog (run_events [Tick 11 5000, Commit 6000] rewindingSession)).
         playback_time_seconds x = Some 35)"
    by blast
  then show ?thesis
    using rewindingSession_run by (simp add: rewindingSession_fields)
qed

subsection \<open>Indicator dots\<close>

lemma fold_delete_if:
  "map_of (fold (\<lambda>(k, d) ds. if P k d then AList.delete k ds else ds) xs acc) eid
     = (if \<exists>d. (eid, d) \<in> set xs \<and> P eid d then None else map_of acc eid)"
proof (induction xs arbitrary: acc)
  case Nil
  show ?case by simp
next
  case (Cons x xs)
  obtain k d where x: "x = (k, d)" by (cases x)
  show ?case
    unfolding x using Cons.IH [of "if P k d then AList.delete k acc else acc"]
    by (auto simp: delete_conv')
qed

lemma fold_delete_if_distinct:
  "distinct (map fst acc) \<Longrightarrow>
     distinct (map fst (fold (\<lambda>(k, d) ds. if P k d then AList.delete k ds else ds) xs acc))"
proof (induction xs arbitrary: acc)
  case Nil
  then show ?case by simp
next
  case (Cons x xs)
  obtain k d where x: "x = (k, d)" by (cases x)
  show ?case
    unfolding x using Cons.IH [of "if P k d then AList.delete k acc else acc"] Cons.prems
    by (simp add: distinct_delete)
qed

lemma alist_entry_unique:
  assumes "distinct (map fst xs)" and "map_of xs k = Some v"
  shows "(k, v') \<in> set xs \<longleftrightarrow> v' = v"
proof
  assume "(k, v') \<in> set xs"
  with assms(1) have "map_of xs k = Some v'" by (rule map_of_is_SomeI)
  with assms(2) show "v' = v" by simp
next
  assume "v' = v"
  with assms(2) show "(k, v') \<in> set xs" by (simp add: map_of_SomeD)
qed

lemma drawActiveDots_lookup:
  assumes "distinct (map fst (activeDots s))"
  shows "map_of (drawActiveDots s now) eid
           = (case map_of (activeDots s) eid of
                None \<Rightarrow> None
              | Some d \<Rightarrow> if dotRemovedByDraw s now eid d then None else Some d)"
proof (cases "map_of (activeDots s) eid")
  case None
  then show ?thesis by (simp add: drawActiveDots_def fold_delete_if)
next
  case (Some d)
  have "\<And>d'. (eid, d') \<in> set (activeDots s) \<longleftrightarrow> d' = d"
    using alist_entry_unique [OF assms Some] .
  then show ?thesis using Some by (simp add: drawActiveDots_def fold_delete_if)
qed

lemma drawActiveDots_distinct:
  "distinct (map fst (activeDots s)) \<Longrightarrow> distinct (map fst (drawActiveDots s now))"
  unfolding drawActiveDots_def by (rule fold_delete_if_distinct)

lemma clearRewindDots_lookup:
  assumes "distinct (map fst dots)"
  shows "map_of (clearRewindDots dots) eid
           = (case map_of dots eid of
                None \<Rightarrow> None
              | Some d \<Rightarrow> if phase d = Rewind then None else Some d)"
proof (cases "map_of dots eid")
  case None
  then show ?thesis by (simp add: clearRewindDots_def fold_delete_if)
next
  case (Some d)
  have "\<And>d'. (eid, d') \<in> set dots \<longleftrightarrow> d' = d"
    using alist_entry_unique [OF assms Some] .
  then show ?thesis using Some by (simp add: clearRewindDots_def fold_delete_if)
qed

lemma clearRewindDots_distinct:
  "distinct (map fst dots) \<Longrightarrow> distinct (map fst (clearRewindDots dots))"
  unfolding clearRewindDots_def by (rule fold_delete_if_distinct)

lemma dotRemovedByDraw_temporary:
  assumes "temporaryDot d"
  shows "dotRemovedByDraw s now eid d \<longleftrightarrow> findEntry s eid = None \<or> runOut now d"
  using assms
  by (auto simp: dotRemovedByDraw_def temporaryDot_def runOut_def Let_def split: option.splits)

lemma rewindStep_distinct:
  "distinct (map fst dots) \<Longrightarrow> distinct (map fst (rewindStep r curTime now e dots))"
  by (simp add: rewindStep_def Let_def distinct_update distinct_delete split: option.splits)

lemma rewindStep_other:
  "entryId e \<noteq> eid \<Longrightarrow> map_of (rewindStep r curTime now e dots) eid = map_of dots eid"
  by (simp add: rewindStep_def Let_def update_conv' delete_conv' split: option.splits)

lemma rewindStep_keeps_temporary:
  assumes "map_of dots eid = Some d" and "temporaryDot d"
  shows "map_of (rewindStep r curTime now e dots) eid = Some d"
proof (cases "entryId e = eid")
  case False
  then show ?thesis using assms(1) by (simp add: rewindStep_other)
next
  case True
  then show ?thesis
    using assms
    by (auto simp: rewindStep_def Let_def temporaryDot_def update_conv' delete_conv'
          split: option.splits)
qed

lemma rewindPass_distinct:
  "distinct (map fst dots) \<Longrightarrow>
     distinct (map fst (fold (rewindStep r curTime now) entries dots))"
  by (induction entries arbitrary: dots) (simp_all add: rewindStep_distinct)

lemma rewindPass_other:
  "\<forall>e \<in> set entries. entryId e \<noteq> eid \<Longrightarrow>
     map_of (fold (rewindStep r curTime now) entries dots) eid = map_of dots eid"
  by (induction entries arbitrary: dots) (simp_all add: rewindStep_other)

lemma rewindPass_keeps_temporary:
  "map_of dots eid = Some d \<Longrightarrow> temporaryDot d \<Longrightarrow>
     map_of (fold (rewindStep r curTime now) entries dots) eid = Some d"
  by (induction entries arbitrary: dots) (simp_all add: rewindStep_keeps_temporary)

lemma preAddDot_distinct:
  "distinct (map fst dots) \<Longrightarrow> distinct (map fst (preAddDot t0 r now e dots))"
  by (simp add: preAddDot_def distinct_update split: option.splits)

lemma preAddDot_keeps:
  "map_of dots eid = Some d \<Longrightarrow> map_of (preAddDot t0 r now e dots) eid = Some d"
  by (auto simp: preAddDot_def update_conv' split: option.splits)

lemma preAddDot_other:
  "entryId e \<noteq> eid \<Longrightarrow> map_of (preAddDot t0 r now e dots) eid = map_of dots eid"
  by (simp add: preAddDot_def update_conv' split: option.splits)

lemma preScan_distinct:
  "distinct (map fst dots) \<Longrightarrow> distinct (map fst (fold (preAddDot t0 r now) entries dots))"
  by (induction entries arbitrary: dots) (simp_all add: preAddDot_distinct)

lemma preScan_keeps:
  "map_of dots eid = Some d \<Longrightarrow> map_of (fold (preAddDot t0 r now) entries dots) eid = Some d"
  by (induction entries arbitrary: dots) (simp_all add: preAddDot_keeps)

lemma preScan_other:
  "\<forall>e \<in> set entries. entryId e \<noteq> eid \<Longrightarrow>
     map_of (fold (preAddDot t0 r now) entries dots) eid = map_of dots eid"
  by (induction entries arbitrary: dots) (simp_all add: preAddDot_other)

lemma findEntry_None_log:
  "findEntry s eid = None \<Longrightarrow> \<forall>e \<in> set (masterLog s). entryId e \<noteq> eid"
  by (auto simp: findEntry_def find_None_iff split: option.splits if_splits)

lemma findEntry_cong:
  "currentEntry s' = currentEntry s \<Longrightarrow> masterLog s' = masterLog s \<Longrightarrow>
     findEntry s' eid = findEntry s eid"
  by (cases "currentEntry s") (simp_all add: findEntry_def)

lemma drawRedDots_distinct:
  "distinct (map fst (activeDots s)) \<Longrightarrow> distinct (map fst (activeDots (drawRedDots now s)))"
  by (simp add: drawRedDots_def Let_def drawActiveDots_distinct rewindPass_distinct)

text \<open>
  A dot is settled in a state when the map holds exactly this dot for the entry, or
  holds no dot for it and the entry is neither the draft nor in the log.
\<close>

lemma drawRedDots_settled:
  assumes dis: "distinct (map fst (activeDots s))"
    and tmp: "temporaryDot d" and live: "\<not> runOut now d"
    and pre: "map_of (activeDots s) eid = Some d
              \<or> (map_of (activeDots s) eid = None \<and> findEntry s eid = None)"
  shows "map_of (activeDots (drawRedDots now s)) eid = Some d
         \<or> (map_of (activeDots (drawRedDots now s)) eid = None \<and> findEntry s eid = None)"
proof (cases "canDraw s")
  case False
  then show ?thesis using pre by (simp add: drawRedDots_def)
next
  case can: True
  show ?thesis
  proof (cases "map_of (activeDots s) eid = Some d \<and> findEntry s eid \<noteq> None")
    case True
    then have "map_of (drawActiveDots s now) eid = Some d"
      unfolding drawActiveDots_lookup [OF dis] using tmp live
      by (simp add: dotRemovedByDraw_temporary)
    then have "map_of (activeDots (drawRedDots now s)) eid = Some d"
      using tmp can by (simp add: drawRedDots_def Let_def rewindPass_keeps_temporary)
    then show ?thesis by simp
  next
    case False
    with pre have none: "findEntry s eid = None" by auto
    have "map_of (drawActiveDots s now) eid = None"
    proof (cases "map_of (activeDots s) eid")
      case None
      then show ?thesis unfolding drawActiveDots_lookup [OF dis] by simp
    next
      case (Some d')
      with pre none have "d' = d" by simp
      with Some show ?thesis
        unfolding drawActiveDots_lookup [OF dis] using tmp none
        by (simp add: dotRemovedByDraw_temporary)
    qed
    moreover have "\<forall>e \<in> set (masterLog s). entryId e \<noteq> eid"
      using none by (rule findEntry_None_log)
    ultimately have "map_of (activeDots (drawRedDots now s)) eid = None"
      using can by (simp add: drawRedDots_def Let_def rewindPass_other)
    with none show ?thesis by simp
  qed
qed

lemma drawRedDots_dotKept:
  assumes "distinct (map fst (activeDots s))" and "temporaryDot d" and "\<not> runOut now d"
    and "dotKept eid d s"
  shows "dotKept eid d (drawRedDots now s)"
proof -
  have "findEntry (drawRedDots now s) eid = findEntry s eid"
    by (rule findEntry_cong) simp_all
  then show ?thesis
    using drawRedDots_settled [OF assms(1-3), of eid] assms(4) by (simp add: dotKept_def)
qed

lemma dotKept_same:
  assumes "activeDots s' = activeDots s" and "currentEntry s' = currentEntry s"
    and "masterLog s' = masterLog s"
  shows "dotKept eid d s' = dotKept eid d s"
  using assms findEntry_cong [of s' s eid] by (simp add: dotKept_def)

lemma clearRewindDots_dotKept:
  assumes "distinct (map fst (activeDots s))" and "temporaryDot d" and "dotKept eid d s"
    and "activeDots s' = clearRewindDots (activeDots s)"
    and "currentEntry s' = currentEntry s" and "masterLog s' = masterLog s"
  shows "dotKept eid d s'"
proof -
  have f: "findEntry s' eid = findEntry s eid"
    using assms(5,6) by (rule findEntry_cong)
  have l: "map_of (activeDots s') eid
             = (case map_of (activeDots s) eid of
                  None \<Rightarrow> None
                | Some d \<Rightarrow> if phase d = Rewind then None else Some d)"
    unfolding assms(4) using assms(1) by (rule clearRewindDots_lookup)
  from assms(3) show ?thesis
    unfolding dotKept_def f l using assms(2) by (auto simp: temporaryDot_def)
qed

lemma completeRecap_dotKept:
  assumes "distinct (map fst (activeDots s))" and "temporaryDot d" and "\<not> runOut now d"
    and "dotKept eid d s"
  shows "dotKept eid d (drawRedDots now (completeRecap (pause_video s)))"
    and "distinct (map fst (activeDots (drawRedDots now (completeRecap (pause_video s)))))"
proof -
  have k: "dotKept eid d (completeRecap (pause_video s))"
    using assms(1,2,4) by (rule clearRewindDots_dotKept) (simp_all add: completeRecap_def)
  have dis: "distinct (map fst (activeDots (completeRecap (pause_video s))))"
    using assms(1) by (simp add: completeRecap_def clearRewindDots_distinct)
  show "dotKept eid d (drawRedDots now (completeRecap (pause_video s)))"
    using dis assms(2,3) k by (rule drawRedDots_dotKept)
  show "distinct (map fst (activeDots (drawRedDots now (completeRecap (pause_video s)))))"
    using dis by (rule drawRedDots_distinct)
qed

lemma checkRecapProgress_shape:
  assumes "recapEndTime s = Some r" and "isRewinding s"
  shows "\<exists>b r'. checkRecapProgress curTime s = (b, s\<lparr>recapEndTime := Some r'\<rparr>)"
  using assms by (simp add: checkRecapProgress_def Let_def) blast

lemma timeupdateRecap_cases:
  "timeupdateRecap now s = s
   \<or> (\<exists>r. timeupdateRecap now s = s\<lparr>recapEndTime := r\<rparr>
          \<or> timeupdateRecap now s
               = drawRedDots now (completeRecap (pause_video (s\<lparr>recapEndTime := r\<rparr>))))"
proof (cases "recapEndTime s")
  case None
  then show ?thesis by (simp add: timeupdateRecap_def)
next
  case (Some r)
  show ?thesis
  proof (cases "isRewinding s")
    case False
    with Some show ?thesis by (simp add: timeupdateRecap_def)
  next
    case rew: True
    show ?thesis
    proof (cases "recapManagerLoaded s")
      case True
      from checkRecapProgress_shape [OF Some rew, of "currentTime (video s)"]
      obtain b r' where c: "checkRecapProgress (currentTime (video s)) s
          = (b, s\<lparr>recapEndTime := Some r'\<rparr>)" by blast
      have "timeupdateRecap now s
              = (if b then drawRedDots now (completeRecap (pause_video (s\<lparr>recapEndTime := Some r'\<rparr>)))
                 else s\<lparr>recapEndTime := Some r'\<rparr>)"
        using Some rew True by (simp add: timeupdateRecap_def Let_def c)
      then show ?thesis by (cases b) auto
    next
      case False
      show ?thesis
      proof (cases "case latestEntryInline (masterLog s) of None \<Rightarrow> None
                     | Some l \<Rightarrow> playback_time_seconds l")
        case None
        with Some rew False show ?thesis by (simp add: timeupdateRecap_def Let_def)
      next
        case (Some latestT)
        define r' where "r' = (if r < latestT then latestT else r)"
        have "timeupdateRecap now s = s \<or> timeupdateRecap now s = s\<lparr>recapEndTime := Some r'\<rparr>
              \<or> timeupdateRecap now s
                   = drawRedDots now (completeRecap (pause_video (s\<lparr>recapEndTime := Some r'\<rparr>)))"
          using \<open>recapEndTime s = Some r\<close> rew False Some
          by (simp add: timeupdateRecap_def Let_def r'_def)
        then show ?thesis by blast
      qed
    qed
  qed
qed

lemma timeupdateRecap_dots:
  assumes "distinct (map fst (activeDots s))" and "temporaryDot d" and "\<not> runOut now d"
    and "dotKept eid d s"
  shows "dotKept eid d (timeupdateRecap now s)"
    and "distinct (map fst (activeDots (timeupdateRecap now s)))"
proof -
  have a: "\<And>r. distinct (map fst (activeDots (s\<lparr>recapEndTime := r\<rparr>)))"
    using assms(1) by simp
  have b: "\<And>r. dotKept eid d (s\<lparr>recapEndTime := r\<rparr>)"
    using assms(4) dotKept_same [of "s\<lparr>recapEndTime := r\<rparr>" s eid d for r] by simp
  from timeupdateRecap_cases [of now s]
  show "dotKept eid d (timeupdateRecap now s)"
    using assms(4) b completeRecap_dotKept(1) [OF a assms(2,3) b] by auto
  from timeupdateRecap_cases [of now s]
  show "distinct (map fst (activeDots (timeupdateRecap now s)))"
    using assms(1) a completeRecap_dotKept(2) [OF a assms(2,3) b] by auto
qed

lemma timeupdateLegacy_dots:
  assumes "distinct (map fst (activeDots s))" and "temporaryDot d" and "\<not> runOut now d"
    and "dotKept eid d s"
  shows "dotKept eid d (timeupdateLegacy now s)"
    and "distinct (map fst (activeDots (timeupdateLegacy now s)))"
proof -
  define s1 where "s1 = (pause_video s)\<lparr>isRewinding := False, rewindStartTime := None,
                                   activeDots := clearRewindDots (activeDots s)\<rparr>"
  have c: "timeupdateLegacy now s = s \<or> timeupdateLegacy now s = drawRedDots now s1"
    by (simp add: timeupdateLegacy_def s1_def split: option.splits)
  have k: "dotKept eid d s1"
    using assms(1,2,4) by (rule clearRewindDots_dotKept) (simp_all add: s1_def)
  have dis: "distinct (map fst (activeDots s1))"
    using assms(1) by (simp add: s1_def clearRewindDots_distinct)
  from c show "dotKept eid d (timeupdateLegacy now s)"
    using assms(4) drawRedDots_dotKept [OF dis assms(2,3) k] by auto
  from c show "distinct (map fst (activeDots (timeupdateLegacy now s)))"
    using assms(1) drawRedDots_distinct [OF dis] by auto
qed

lemma timeupdate_dots:
  assumes "distinct (map fst (activeDots s))" and "temporaryDot d" and "\<not> runOut now d"
    and "dotKept eid d s"
  shows "dotKept eid d (timeupdate now s)"
    and "distinct (map fst (activeDots (timeupdate now s)))"
proof -
  have d0: "distinct (map fst (activeDots (drawRedDots now s)))"
    using assms(1) by (rule drawRedDots_distinct)
  have k0: "dotKept eid d (drawRedDots now s)"
    using assms by (rule drawRedDots_dotKept)
  note r = timeupdateRecap_dots [OF d0 assms(2,3) k0]
  show "dotKept eid d (timeupdate now s)"
    unfolding timeupdate_def by (rule timeupdateLegacy_dots(1) [OF r(2) assms(2,3) r(1)])
  show "distinct (map fst (activeDots (timeupdate now s)))"
    unfolding timeupdate_def by (rule timeupdateLegacy_dots(2) [OF r(2) assms(2,3) r(1)])
qed

lemma timeupdateRecap_distinct:
  assumes "distinct (map fst (activeDots s))"
  shows "distinct (map fst (activeDots (timeupdateRecap now s)))"
proof -
  have "\<And>r. distinct (map fst (activeDots
           (drawRedDots now (completeRecap (pause_video (s\<lparr>recapEndTime := r\<rparr>))))))"
    using assms by (simp add: drawRedDots_distinct completeRecap_def clearRewindDots_distinct)
  with timeupdateRecap_cases [of now s] assms show ?thesis by auto
qed

lemma timeupdateLegacy_distinct:
  assumes "distinct (map fst (activeDots s))"
  shows "distinct (map fst (activeDots (timeupdateLegacy now s)))"
  using assms
  by (simp add: timeupdateLegacy_def drawRedDots_distinct clearRewindDots_distinct
        split: option.splits)

lemma timeupdate_distinct:
  assumes "distinct (map fst (activeDots s))"
  shows "distinct (map fst (activeDots (timeupdate now s)))"
  unfolding timeupdate_def
  using assms
  by (intro timeupdateLegacy_distinct timeupdateRecap_distinct drawRedDots_distinct)

lemma runSeekedListener_dots:
  assumes "distinct (map fst (activeDots s))"
  shows "distinct (map fst (activeDots (runSeekedListener now l s)))"
    and "temporaryDot d \<Longrightarrow> \<not> runOut now d \<Longrightarrow> dotKept eid d s \<Longrightarrow>
           dotKept eid d (runSeekedListener now l s)"
proof -
  define s1 where "s1 = (pause_video s)\<lparr>isRewinding := True\<rparr>"
  define s2 where "s2 = (\<lambda>r. s1\<lparr>activeDots :=
      fold (preAddDot (currentTime (video s1)) r now) (masterLog s1) (activeDots s1)\<rparr>)"
  have c: "runSeekedListener now l s = pause_video s \<or> runSeekedListener now l s = s1
           \<or> (\<exists>r. runSeekedListener now l s = drawRedDots now (s2 r))"
    by (cases l) (auto simp: runSeekedListener_def Let_def s1_def s2_def split: option.splits)
  have d2: "\<And>r. distinct (map fst (activeDots (s2 r)))"
    using assms by (simp add: s2_def s1_def preScan_distinct)
  from c show "distinct (map fst (activeDots (runSeekedListener now l s)))"
    using assms drawRedDots_distinct [OF d2] by (auto simp: s1_def)
  assume t: "temporaryDot d" "\<not> runOut now d" and k: "dotKept eid d s"
  have k1: "dotKept eid d s1" "dotKept eid d (pause_video s)"
    using k dotKept_same [of s1 s eid d] dotKept_same [of "pause_video s" s eid d]
    by (simp_all add: s1_def)
  have f2: "\<And>r. findEntry (s2 r) eid = findEntry s eid"
    by (rule findEntry_cong) (simp_all add: s2_def s1_def)
  have k2: "dotKept eid d (s2 r)" for r
  proof (cases "map_of (activeDots s) eid = Some d")
    case True
    then show ?thesis
      by (simp add: dotKept_def s2_def s1_def preScan_keeps)
  next
    case False
    with k have n: "map_of (activeDots s) eid = None" "findEntry s eid = None"
      by (simp_all add: dotKept_def)
    have "\<forall>e \<in> set (masterLog s). entryId e \<noteq> eid"
      using n(2) by (rule findEntry_None_log)
    then have "map_of (activeDots (s2 r)) eid = None"
      using n(1) by (simp add: s2_def s1_def preScan_other)
    then show ?thesis using n(2) f2 by (simp add: dotKept_def)
  qed
  from c show "dotKept eid d (runSeekedListener now l s)"
    using k1 drawRedDots_dotKept [OF d2 t k2] by auto
qed

lemma seekedListeners_dots:
  assumes "distinct (map fst (activeDots s))"
  shows "distinct (map fst (activeDots (fold (runSeekedListener now) ls s)))"
    and "temporaryDot d \<Longrightarrow> \<not> runOut now d \<Longrightarrow> dotKept eid d s \<Longrightarrow>
           dotKept eid d (fold (runSeekedListener now) ls s)"
  using assms
proof (induction ls arbitrary: s)
  case Nil
  { case 1 then show ?case by simp }
  { case 2 then show ?case by simp }
next
  case (Cons l ls)
  { case 1
    then show ?case using Cons.IH(1) runSeekedListener_dots(1) by simp }
  { case 2
    then show ?case
      using Cons.IH(2) runSeekedListener_dots by simp }
qed

lemma seeked_dots:
  assumes "distinct (map fst (activeDots s))"
  shows "distinct (map fst (activeDots (seeked now s)))"
    and "temporaryDot d \<Longrightarrow> \<not> runOut now d \<Longrightarrow> dotKept eid d s \<Longrightarrow>
           dotKept eid d (seeked now s)"
proof -
  have d0: "distinct (map fst (activeDots (s\<lparr>seekedListeners := []\<rparr>)))"
    using assms by simp
  show "distinct (map fst (activeDots (seeked now s)))"
    unfolding seeked_def using d0 by (rule seekedListeners_dots(1))
  assume t: "temporaryDot d" "\<not> runOut now d" and k: "dotKept eid d s"
  have "dotKept eid d (s\<lparr>seekedListeners := []\<rparr>)"
    using k dotKept_same [of "s\<lparr>seekedListeners := []\<rparr>" s eid d] by simp
  then show "dotKept eid d (seeked now s)"
    unfolding seeked_def using seekedListeners_dots(2) [OF d0 t] by simp
qed

text \<open>
  C9. The dots are kept in a map from entry ids, here a list of pairs with one pair per
  id; a tick (\<open>timeupdate\<close>) and the pre-scan of a recap (the \<open>seeked\<close> listener)
  keep it so. Neither the review loop of \<open>drawRedDots\<close> nor the pre-scan changes the
  record of an entry that holds a waiting, finalized or undo dot. After a whole tick
  or pre-scan an entry with such a dot that has not run out still holds exactly that
  dot, or holds none because it is no longer the draft or in the log; it never holds a
  review dot instead.
\<close>

theorem temporary_dots_mask_review:
  assumes "distinct (map fst (activeDots s))"
  shows "distinct (map fst (activeDots (timeupdate now s)))
       \<and> distinct (map fst (activeDots (seeked now s)))
       \<and> (\<forall>eid d. map_of (activeDots s) eid = Some d \<and> temporaryDot d \<longrightarrow>
             map_of (fold (rewindStep (recapEndTime s) (currentTime (video s)) now)
                       (masterLog s) (activeDots s)) eid = Some d
             \<and> (\<forall>t0 r. map_of (fold (preAddDot t0 r now) (masterLog s) (activeDots s)) eid
                         = Some d)
             \<and> (\<not> runOut now d \<longrightarrow>
                   dotKept eid d (timeupdate now s) \<and> dotKept eid d (seeked now s)))"
proof (intro conjI allI impI)
  show "distinct (map fst (activeDots (timeupdate now s)))"
    using assms by (rule timeupdate_distinct)
  show "distinct (map fst (activeDots (seeked now s)))"
    using assms by (rule seeked_dots(1))
next
  fix eid d
  assume a: "map_of (activeDots s) eid = Some d \<and> temporaryDot d"
  then show "map_of (fold (rewindStep (recapEndTime s) (currentTime (video s)) now)
                       (masterLog s) (activeDots s)) eid = Some d"
    by (simp add: rewindPass_keeps_temporary)
next
  fix eid d t0 r
  assume a: "map_of (activeDots s) eid = Some d \<and> temporaryDot d"
  then show "map_of (fold (preAddDot t0 r now) (masterLog s) (activeDots s)) eid = Some d"
    by (simp add: preScan_keeps)
next
  fix eid d
  assume a: "map_of (activeDots s) eid = Some d \<and> temporaryDot d" and l: "\<not> runOut now d"
  from a have k: "dotKept eid d s" by (simp add: dotKept_def)
  from a have t: "temporaryDot d" by simp
  show "dotKept eid d (timeupdate now s)"
    using assms t l k by (rule timeupdate_dots(1))
  show "dotKept eid d (seeked now s)"
    using seeked_dots(2) [OF assms t l k] .
qed

text \<open>
  During the review of the third scenario the open draft keeps its green dot over a
  tick, although its playback time lies inside the window the review loop looks at.
\<close>

theorem temporary_dots_mask_review_witness:
  "distinct (map fst (activeDots draftingInReview))
   \<and> map_of (activeDots draftingInReview) ''entry_3_2'' = Some waitingDot
   \<and> temporaryDot waitingDot \<and> \<not> runOut 5000 waitingDot
   \<and> dotKept ''entry_3_2'' waitingDot (timeupdate 5000 draftingInReview)
   \<and> distinct (map fst (activeDots (timeupdate 5000 draftingInReview)))"
proof -
  have d: "distinct (map fst (activeDots draftingInReview))"
    by (simp add: draftingInReview_def)
  have m: "map_of (activeDots draftingInReview) ''entry_3_2'' = Some waitingDot"
    by (simp add: draftingInReview_def)
  have t: "temporaryDot waitingDot" "\<not> runOut 5000 waitingDot"
    by (simp_all add: temporaryDot_def runOut_def waitingDot_def)
  from temporary_dots_mask_review [OF d, of 5000] m t
  have "dotKept ''entry_3_2'' waitingDot (timeupdate 5000 draftingInReview)"
    "distinct (map fst (activeDots (timeupdate 5000 draftingInReview)))"
    by blast+
  with d m t show ?thesis by simp
qed

subsection \<open>Clicks on the video\<close>














subsection \<open>Audit export\<close>

lemma finishDelete_fields [simp]:
  "config (finishDelete now e s) = config s"
  "videoStartTime (finishDelete now e s) = videoStartTime s"
  "masterLog (finishDelete now e s) = masterLog s"
  "currentEntry (finishDelete now e s) = currentEntry s"
  "currentStepIndex (finishDelete now e s) = currentStepIndex s"
  "spacePressed (finishDelete now e s) = spacePressed s"
  "playbackSpeed (finishDelete now e s) = playbackSpeed s"
  "entryCounter (finishDelete now e s) = entryCounter s"
  "isRewinding (finishDelete now e s) = isRewinding s"
  "rewindStartTime (finishDelete now e s) = rewindStartTime s"
  "recapEndTime (finishDelete now e s) = recapEndTime s"
  "recapCompleted (finishDelete now e s) = recapCompleted s"
  "mode (finishDelete now e s) = mode s"
  "originalEntries (finishDelete now e s) = originalEntries s"
  "deletedEntryIds (finishDelete now e s) = deletedEntryIds s"
  "newEntries (finishDelete now e s) = newEntries s"
  "undoStack (finishDelete now e s) = undoStack s"
  "video (finishDelete now e s) = video s"
  "containerLeft (finishDelete now e s) = containerLeft s"
  "containerTop (finishDelete now e s) = containerTop s"
  "canvasReady (finishDelete now e s) = canvasReady s"
  "modalActive (finishDelete now e s) = modalActive s"
  "lastClickPosition (finishDelete now e s) = lastClickPosition s"
  "seekedListeners (finishDelete now e s) = seekedListeners s"
  "recapManagerLoaded (finishDelete now e s) = recapManagerLoaded s"
  by (simp_all add: finishDelete_def)



lemma entriesToExport_cong:
  "mode s' = mode s \<Longrightarrow> originalEntries s' = originalEntries s \<Longrightarrow>
   newEntries s' = newEntries s \<Longrightarrow> deletedEntryIds s' = deletedEntryIds s \<Longrightarrow>
   masterLog s' = masterLog s \<Longrightarrow> entriesToExport s' = entriesToExport s"
  by (simp add: entriesToExport_def)












subsection \<open>Going back through the steps\<close>

end
